theory Spec2Isabelle
  imports Complex_Main
begin

section \<open>Python and numpy floats\<close>

text \<open>
  The program computes with IEEE-754 doubles (Python \<^verbatim>\<open>float\<close>, numpy
  \<^verbatim>\<open>float64\<close>). A value is a finite number, \<^verbatim>\<open>+inf\<close>,
  \<^verbatim>\<open>-inf\<close> or \<^verbatim>\<open>nan\<close>. Finite values are idealised as real
  numbers: overflow to infinity and the sign of zero are not modelled (a zero
  divisor counts as \<^verbatim>\<open>+0.0\<close>), and the operations below are exact. Rounding
  is modelled where a property depends on it, in the conversions of the beta
  distribution: they round the result of every operation with a function given as a
  parameter (see \<open>round53\<close>). What the model keeps is what the control flow
  of the program depends on: comparisons with \<^verbatim>\<open>nan\<close> are false, the
  special values propagate through arithmetic as numpy propagates them, and numpy
  array operations give \<^verbatim>\<open>inf\<close> or \<^verbatim>\<open>nan\<close> where Python scalars
  would raise.
\<close>

datatype pyfloat = Fin real | PInf | NInf | NaN

fun isnan :: "pyfloat \<Rightarrow> bool" where
  "isnan NaN = True"
| "isnan _ = False"

text \<open>Comparisons: \<^verbatim>\<open>a < b\<close>, \<^verbatim>\<open>a > b\<close>, \<^verbatim>\<open>a <= b\<close>,
  \<^verbatim>\<open>a >= b\<close>, \<^verbatim>\<open>a == b\<close>.\<close>

fun flt :: "pyfloat \<Rightarrow> pyfloat \<Rightarrow> bool" where
  "flt NaN _ = False"
| "flt _ NaN = False"
| "flt (Fin a) (Fin b) = (a < b)"
| "flt (Fin a) PInf = True"
| "flt (Fin a) NInf = False"
| "flt PInf _ = False"
| "flt NInf (Fin b) = True"
| "flt NInf PInf = True"
| "flt NInf NInf = False"

definition fgt :: "pyfloat \<Rightarrow> pyfloat \<Rightarrow> bool" where
  "fgt a b = flt b a"

definition feq :: "pyfloat \<Rightarrow> pyfloat \<Rightarrow> bool" where
  "feq a b = (\<not> isnan a \<and> a = b)"

definition fle :: "pyfloat \<Rightarrow> pyfloat \<Rightarrow> bool" where
  "fle a b = (flt a b \<or> feq a b)"

definition fge :: "pyfloat \<Rightarrow> pyfloat \<Rightarrow> bool" where
  "fge a b = fle b a"

text \<open>Arithmetic on special values, as IEEE-754 and numpy define it.\<close>

fun fneg :: "pyfloat \<Rightarrow> pyfloat" where
  "fneg (Fin a) = Fin (- a)"
| "fneg PInf = NInf"
| "fneg NInf = PInf"
| "fneg NaN = NaN"

fun fadd :: "pyfloat \<Rightarrow> pyfloat \<Rightarrow> pyfloat" where
  "fadd NaN _ = NaN"
| "fadd _ NaN = NaN"
| "fadd (Fin a) (Fin b) = Fin (a + b)"
| "fadd (Fin a) PInf = PInf"
| "fadd (Fin a) NInf = NInf"
| "fadd PInf (Fin b) = PInf"
| "fadd PInf PInf = PInf"
| "fadd PInf NInf = NaN"
| "fadd NInf (Fin b) = NInf"
| "fadd NInf PInf = NaN"
| "fadd NInf NInf = NInf"

definition fsub :: "pyfloat \<Rightarrow> pyfloat \<Rightarrow> pyfloat" where
  "fsub a b = fadd a (fneg b)"

text \<open>The sign of an infinite product or quotient: \<open>inf_signed s\<close> is
  \<^verbatim>\<open>+inf\<close> for positive \<open>s\<close>, \<^verbatim>\<open>-inf\<close> for negative \<open>s\<close>
  and \<^verbatim>\<open>nan\<close> for \<open>s = 0\<close>.\<close>

definition inf_signed :: "real \<Rightarrow> pyfloat" where
  "inf_signed s = (if 0 < s then PInf else if s < 0 then NInf else NaN)"

fun fmul :: "pyfloat \<Rightarrow> pyfloat \<Rightarrow> pyfloat" where
  "fmul NaN _ = NaN"
| "fmul _ NaN = NaN"
| "fmul (Fin a) (Fin b) = Fin (a * b)"
| "fmul (Fin a) PInf = inf_signed a"
| "fmul (Fin a) NInf = inf_signed (- a)"
| "fmul PInf (Fin b) = inf_signed b"
| "fmul PInf PInf = PInf"
| "fmul PInf NInf = NInf"
| "fmul NInf (Fin b) = inf_signed (- b)"
| "fmul NInf PInf = NInf"
| "fmul NInf NInf = PInf"

fun fdiv :: "pyfloat \<Rightarrow> pyfloat \<Rightarrow> pyfloat" where
  "fdiv NaN _ = NaN"
| "fdiv _ NaN = NaN"
| "fdiv (Fin a) (Fin b) = (if b = 0 then inf_signed a else Fin (a / b))"
| "fdiv (Fin a) PInf = Fin 0"
| "fdiv (Fin a) NInf = Fin 0"
| "fdiv PInf (Fin b) = (if b < 0 then NInf else PInf)"
| "fdiv NInf (Fin b) = (if b < 0 then PInf else NInf)"
| "fdiv PInf PInf = NaN"
| "fdiv PInf NInf = NaN"
| "fdiv NInf PInf = NaN"
| "fdiv NInf NInf = NaN"

text \<open>\<^verbatim>\<open>xp.log\<close> and \<^verbatim>\<open>xp.exp\<close>.\<close>

fun flog :: "pyfloat \<Rightarrow> pyfloat" where
  "flog (Fin a) = (if 0 < a then Fin (ln a) else if a = 0 then NInf else NaN)"
| "flog PInf = PInf"
| "flog NInf = NaN"
| "flog NaN = NaN"

fun fexp :: "pyfloat \<Rightarrow> pyfloat" where
  "fexp (Fin a) = Fin (exp a)"
| "fexp PInf = PInf"
| "fexp NInf = Fin 0"
| "fexp NaN = NaN"

text \<open>\<^verbatim>\<open>xp.power(x, y)\<close> for a finite exponent \<open>y\<close> (every exponent of the
  program is a literal or a finite parameter), after C's \<^verbatim>\<open>pow\<close>: anything to
  the power 0 is 1, a negative base is defined for integer exponents only.\<close>

definition is_integer :: "real \<Rightarrow> bool" where
  "is_integer y = (y = of_int \<lfloor>y\<rfloor>)"

fun fpow :: "pyfloat \<Rightarrow> real \<Rightarrow> pyfloat" where
  "fpow (Fin a) y =
     (if y = 0 then Fin 1
      else if 0 < a then Fin (a powr y)
      else if a = 0 then (if 0 < y then Fin 0 else PInf)
      else if is_integer y then Fin (a powi \<lfloor>y\<rfloor>) else NaN)"
| "fpow PInf y = (if y = 0 then Fin 1 else if 0 < y then PInf else Fin 0)"
| "fpow NInf y =
     (if y = 0 then Fin 1
      else if 0 < y then (if is_integer y \<and> odd \<lfloor>y\<rfloor> then NInf else PInf)
      else Fin 0)"
| "fpow NaN y = (if y = 0 then Fin 1 else NaN)"

text \<open>\<^verbatim>\<open>xp.nan_to_num\<close> with its default arguments: \<^verbatim>\<open>nan\<close> becomes 0,
  \<^verbatim>\<open>+inf\<close> becomes the largest finite double \<open>(2 - 1 / 2 ^ 52) * 2 ^ 1023\<close>
  (about \<^verbatim>\<open>1.7976931348623157e308\<close>) and \<^verbatim>\<open>-inf\<close> its negation.\<close>

definition float_max :: real where
  "float_max = (2 - 1 / 2 ^ 52) * 2 ^ 1023"

fun nan_to_num :: "pyfloat \<Rightarrow> pyfloat" where
  "nan_to_num (Fin a) = Fin a"
| "nan_to_num PInf = Fin float_max"
| "nan_to_num NInf = Fin (- float_max)"
| "nan_to_num NaN = Fin 0"

text \<open>\<^verbatim>\<open>xp.sum\<close> of an array.\<close>

definition fsum :: "pyfloat list \<Rightarrow> pyfloat" where
  "fsum xs = foldl fadd (Fin 0) xs"

text \<open>
  Rounding. An IEEE-754 operation returns the exact result rounded to the nearest
  double, ties to the even mantissa. \<open>round53 x\<close> is that double for a real \<open>x\<close>: with
  \<open>e\<close> the exponent for which \<open>\<bar>x\<bar> / 2 ^ e\<close> lies in \<open>[2 ^ 52, 2 ^ 53)\<close>, it is
  \<open>x / 2 ^ e\<close> rounded to an integer, times \<open>2 ^ e\<close>. The exponent is not bounded
  (no overflow, no subnormal numbers). \<open>frnd rnd\<close> rounds a finite value with \<open>rnd\<close>
  and leaves the special values; \<open>radd\<close>, \<open>rsub\<close>, \<open>rmul\<close>, \<open>rdiv\<close> and \<open>rpow\<close> are
  the operations followed by the rounding. With the identity for \<open>rnd\<close> they are the
  exact operations; with \<open>round53\<close> they are the operations on doubles
  (\<^verbatim>\<open>xp.power(x, 2.)\<close> taken as correctly rounded).
\<close>

definition round_half_even :: "real \<Rightarrow> int" where
  "round_half_even y =
     (let f = \<lfloor>y\<rfloor>
      in if y - of_int f < 1 / 2 then f
         else if 1 / 2 < y - of_int f then f + 1
         else if even f then f else f + 1)"

definition round53 :: "real \<Rightarrow> real" where
  "round53 x =
     (if x = 0 then 0
      else let e = \<lfloor>log 2 \<bar>x\<bar>\<rfloor> - 52
           in of_int (round_half_even (x / 2 powi e)) * 2 powi e)"

fun frnd :: "(real \<Rightarrow> real) \<Rightarrow> pyfloat \<Rightarrow> pyfloat" where
  "frnd rnd (Fin a) = Fin (rnd a)"
| "frnd rnd PInf = PInf"
| "frnd rnd NInf = NInf"
| "frnd rnd NaN = NaN"

definition radd :: "(real \<Rightarrow> real) \<Rightarrow> pyfloat \<Rightarrow> pyfloat \<Rightarrow> pyfloat" where
  "radd rnd a b = frnd rnd (fadd a b)"

definition rsub :: "(real \<Rightarrow> real) \<Rightarrow> pyfloat \<Rightarrow> pyfloat \<Rightarrow> pyfloat" where
  "rsub rnd a b = frnd rnd (fsub a b)"

definition rmul :: "(real \<Rightarrow> real) \<Rightarrow> pyfloat \<Rightarrow> pyfloat \<Rightarrow> pyfloat" where
  "rmul rnd a b = frnd rnd (fmul a b)"

definition rdiv :: "(real \<Rightarrow> real) \<Rightarrow> pyfloat \<Rightarrow> pyfloat \<Rightarrow> pyfloat" where
  "rdiv rnd a b = frnd rnd (fdiv a b)"

definition rpow :: "(real \<Rightarrow> real) \<Rightarrow> pyfloat \<Rightarrow> real \<Rightarrow> pyfloat" where
  "rpow rnd a y = frnd rnd (fpow a y)"

section \<open>The hierarchical likelihood (likelihood.py)\<close>

text \<open>
  \<^verbatim>\<open>hierarchical_likelihood.__init__\<close> stores the two effective-number thresholds
  and the variance threshold. With a variance threshold both effective-number
  thresholds are overwritten by \<open>-1\<close>; without one, a missing \<^verbatim>\<open>neffINJ\<close>
  defaults to four times the number of events.
\<close>

record hierarchical_likelihood =
  neffPE :: pyfloat
  neffINJ :: pyfloat
  likelihood_variance_thr :: "pyfloat option"

definition hierarchical_likelihood_init :: "nat \<Rightarrow> pyfloat \<Rightarrow> pyfloat option \<Rightarrow> pyfloat option \<Rightarrow> hierarchical_likelihood" where
  "hierarchical_likelihood_init n_ev_arg neffPE_arg neffINJ_arg thr_arg =
     (case thr_arg of
        Some t \<Rightarrow> \<lparr>neffPE = Fin (- 1), neffINJ = Fin (- 1), likelihood_variance_thr = Some t\<rparr>
      | None \<Rightarrow>
          \<lparr>neffPE = neffPE_arg,
           neffINJ = (case neffINJ_arg of None \<Rightarrow> Fin (4 * real n_ev_arg) | Some n \<Rightarrow> n),
           likelihood_variance_thr = None\<rparr>)"

text \<open>
  \<^verbatim>\<open>log_likelihood\<close> first updates the rate model, the injections and the posterior
  samples, which belong to other modules. The record below holds what the method reads
  from them afterwards: the scalars of the injection set, the per-event arrays of the
  posterior samples (each of length \<open>n_ev\<close>) and the rate model's flag.
\<close>

record collaborators =
  Neff :: pyfloat
  ntotal :: pyfloat
  pseudo_rate :: pyfloat
  Tobs :: pyfloat
  Nexp :: pyfloat
  n_ev :: nat
  neff_PE_ev :: "pyfloat list"
  Ns_array :: "pyfloat list"
  sum_weights :: "pyfloat list"
  scale_free :: bool

datatype error = ValueError

text \<open>The three stability gates (lines 74, 81 and 88-89) and the variance they use
  (lines 84-86).\<close>

definition gate_INJ :: "hierarchical_likelihood \<Rightarrow> collaborators \<Rightarrow> bool" where
  "gate_INJ self c = (flt (Neff c) (neffINJ self) \<or> feq (Neff c) (Fin 0))"

definition gate_PE :: "hierarchical_likelihood \<Rightarrow> collaborators \<Rightarrow> bool" where
  "gate_PE self c = list_ex (\<lambda>x. flt x (neffPE self)) (neff_PE_ev c)"

definition likelihood_variance :: "collaborators \<Rightarrow> pyfloat" where
  "likelihood_variance c =
     fadd (fmul (fdiv (fpow (Fin (real (n_ev c))) 2) (Neff c))
                (fsub (Fin 1) (fdiv (Neff c) (ntotal c))))
          (fsum (map2 (\<lambda>ne ns. fmul (fpow ne (- 1)) (fsub (Fin 1) (fdiv ne ns)))
                   (neff_PE_ev c) (Ns_array c)))"

definition gate_variance :: "hierarchical_likelihood \<Rightarrow> collaborators \<Rightarrow> bool" where
  "gate_variance self c =
     (case likelihood_variance_thr self of
        None \<Rightarrow> False
      | Some t \<Rightarrow> fgt (likelihood_variance c) t)"

text \<open>The combination of the terms (lines 93-99).\<close>

definition log_likeli :: "collaborators \<Rightarrow> pyfloat" where
  "log_likeli c =
     (if scale_free c
      then fsub (fsum (map flog (sum_weights c)))
                (fmul (Fin (real (n_ev c))) (flog (pseudo_rate c)))
      else fadd (fadd (fneg (Nexp c)) (fmul (Fin (real (n_ev c))) (flog (Tobs c))))
                (fsum (map flog (sum_weights c))))"

text \<open>The controls on the combined value (lines 103-111).\<close>

definition sanitize :: "pyfloat \<Rightarrow> error + pyfloat" where
  "sanitize l =
     (if feq l PInf then Inl ValueError
      else if isnan l then Inr (nan_to_num NInf)
      else Inr (nan_to_num l))"

definition log_likelihood :: "hierarchical_likelihood \<Rightarrow> collaborators \<Rightarrow> error + pyfloat" where
  "log_likelihood self c =
     (if gate_INJ self c then Inr (nan_to_num NInf)
      else if gate_PE self c then Inr (nan_to_num NInf)
      else if gate_variance self c then Inr (nan_to_num NInf)
      else sanitize (log_likeli c))"

section \<open>Window functions and the 1-dimensional pdf (priors.py)\<close>

text \<open>An array is a list. \<open>mask_assign y sel v\<close> is the assignment
  \<^verbatim>\<open>y[sel] = v\<close> of a scalar under a boolean mask of the array's length.\<close>

definition mask_assign :: "'a list \<Rightarrow> bool list \<Rightarrow> 'a \<Rightarrow> 'a list" where
  "mask_assign y sel v = map2 (\<lambda>yi m. if m then v else yi) y sel"

text \<open>
  \<^verbatim>\<open>_highpass_filter(mass, mmin, delta_m)\<close> with scalar, finite \<open>mmin\<close> and
  \<open>delta_m\<close>, the width of the window (with an array \<open>delta_m\<close> of more than one entry
  the test \<^verbatim>\<open>delta_m == 0\<close> raises). The three masks are computed first; the
  exponential is evaluated on
  the window only, every other entry of \<^verbatim>\<open>effe_prime\<close> stays 1; the zero mask
  is written before the one mask.
\<close>

definition highpass_filter :: "pyfloat list \<Rightarrow> real \<Rightarrow> real \<Rightarrow> pyfloat list" where
  "highpass_filter mass mmin delta_m =
     (if delta_m = 0 then map (\<lambda>_. Fin 1) mass
      else
        let mprime = map (\<lambda>x. fsub x (Fin mmin)) mass;
            select_window = map (\<lambda>x. fgt x (Fin mmin) \<and> flt x (Fin (delta_m + mmin))) mass;
            select_one = map (\<lambda>x. fge x (Fin (delta_m + mmin))) mass;
            select_zero = map (\<lambda>x. fle x (Fin mmin)) mass;
            effe_prime =
              map2 (\<lambda>mp w.
                  if w
                  then fexp (nan_to_num (fadd (fdiv (Fin delta_m) mp)
                                              (fdiv (Fin delta_m) (fsub mp (Fin delta_m)))))
                  else Fin 1)
                mprime select_window;
            to_ret = map (\<lambda>e. fdiv (Fin 1) (fadd e (Fin 1))) effe_prime;
            to_ret = mask_assign to_ret select_zero (Fin 0);
            to_ret = mask_assign to_ret select_one (Fin 1)
        in to_ret)"

text \<open>
  \<^verbatim>\<open>basic_1dimpdf\<close>: the bounds and the two methods a subclass supplies,
  \<^verbatim>\<open>_log_pdf\<close> and \<^verbatim>\<open>_log_cdf\<close>. Every subclass of the module
  evaluates them entry by entry, so they are functions of one array entry here and the
  result has the shape of the input.
\<close>

record basic_1dimpdf =
  minval :: real
  maxval :: real
  sub_log_pdf :: "pyfloat \<Rightarrow> pyfloat"
  sub_log_cdf :: "pyfloat \<Rightarrow> pyfloat"

text \<open>Modelled from the spec: \<^verbatim>\<open>check_bounds_1D\<close> of the module
  \<^verbatim>\<open>cupy_pal\<close>, which is not among the sources. The spec's bound masking
  sets the log pdf to \<^verbatim>\<open>-inf\<close> at any \<open>x\<close> outside \<open>[minval, maxval]\<close>, so the
  mask is true where \<open>x < minval\<close> or \<open>x > maxval\<close>.\<close>

definition check_bounds_1D :: "pyfloat list \<Rightarrow> real \<Rightarrow> real \<Rightarrow> bool list" where
  "check_bounds_1D x lo hi = map (\<lambda>v. flt v (Fin lo) \<or> fgt v (Fin hi)) x"

definition check_bound_pdf :: "basic_1dimpdf \<Rightarrow> pyfloat list \<Rightarrow> pyfloat list \<Rightarrow> pyfloat list" where
  "check_bound_pdf self x y =
     (let indx = check_bounds_1D x (minval self) (maxval self)
      in mask_assign y indx NInf)"

definition check_bound_cdf :: "basic_1dimpdf \<Rightarrow> pyfloat list \<Rightarrow> pyfloat list \<Rightarrow> pyfloat list" where
  "check_bound_cdf self x y =
     (let y = mask_assign y (map (\<lambda>v. flt v (Fin (minval self))) x) NInf;
          y = mask_assign y (map (\<lambda>v. fgt v (Fin (maxval self))) x) (Fin 0)
      in y)"

definition log_pdf :: "basic_1dimpdf \<Rightarrow> pyfloat list \<Rightarrow> pyfloat list" where
  "log_pdf self x = (let y = map (sub_log_pdf self) x in check_bound_pdf self x y)"

definition log_cdf :: "basic_1dimpdf \<Rightarrow> pyfloat list \<Rightarrow> pyfloat list" where
  "log_cdf self x = (let y = map (sub_log_cdf self) x in check_bound_cdf self x y)"

definition pdf :: "basic_1dimpdf \<Rightarrow> pyfloat list \<Rightarrow> pyfloat list" where
  "pdf self x = map fexp (log_pdf self x)"

definition cdf :: "basic_1dimpdf \<Rightarrow> pyfloat list \<Rightarrow> pyfloat list" where
  "cdf self x = map fexp (log_cdf self x)"

section \<open>Power laws (priors.py)\<close>

definition PL_normfact :: "real \<Rightarrow> real \<Rightarrow> real \<Rightarrow> pyfloat" where
  "PL_normfact minpl maxpl alpha =
     (if alpha = - 1 then flog (fdiv (Fin maxpl) (Fin minpl))
      else fdiv (fsub (fpow (Fin maxpl) (alpha + 1)) (fpow (Fin minpl) (alpha + 1)))
                (Fin (alpha + 1)))"

text \<open>The same factor over the reals, which is what \<open>PL_normfact\<close> computes for
  \<open>0 < minpl < maxpl\<close>.\<close>

definition PL_norm_real :: "real \<Rightarrow> real \<Rightarrow> real \<Rightarrow> real" where
  "PL_norm_real minpl maxpl alpha =
     (if alpha = - 1 then ln (maxpl / minpl)
      else (maxpl powr (alpha + 1) - minpl powr (alpha + 1)) / (alpha + 1))"

text \<open>\<^verbatim>\<open>PowerLaw(minpl, maxpl, alpha)\<close>: the constructor computes
  \<^verbatim>\<open>norm_fact\<close> once; \<^verbatim>\<open>_log_pdf\<close> and \<^verbatim>\<open>_log_cdf\<close> use it.\<close>

definition PowerLaw :: "real \<Rightarrow> real \<Rightarrow> real \<Rightarrow> basic_1dimpdf" where
  "PowerLaw minpl maxpl alpha =
     (let norm_fact = PL_normfact minpl maxpl alpha
      in \<lparr>minval = minpl, maxval = maxpl,
          sub_log_pdf = (\<lambda>x. fsub (fmul (Fin alpha) (flog x)) (flog norm_fact)),
          sub_log_cdf = (\<lambda>x.
            if alpha = - 1
            then flog (fdiv (flog (fdiv x (Fin minpl))) norm_fact)
            else flog (fdiv (fdiv (fsub (fpow x (alpha + 1)) (fpow (Fin minpl) (alpha + 1)))
                                  (Fin (alpha + 1)))
                            norm_fact))\<rparr>)"

text \<open>\<^verbatim>\<open>xp.logaddexp(a, b)\<close> is \<open>log(exp a + exp b)\<close>.\<close>

definition logaddexp :: "pyfloat \<Rightarrow> pyfloat \<Rightarrow> pyfloat" where
  "logaddexp a b = flog (fadd (fexp a) (fexp b))"

text \<open>
  \<^verbatim>\<open>BrokenPowerLaw(minpl, maxpl, alpha_1, alpha_2, b)\<close>. The two power laws meet at
  \<^verbatim>\<open>break_point\<close>. \<open>BPL_first\<close> and \<open>BPL_second\<close> are the two arguments of
  \<^verbatim>\<open>logaddexp\<close> in \<^verbatim>\<open>_log_pdf\<close>: the log pdf of the first power law, and
  the log pdf of the second one rescaled by the ratio of the two at the break point.
  An array of one entry, such as \<^verbatim>\<open>xp.array([self.break_point])\<close>, is a list of
  one entry and \<^verbatim>\<open>[0]\<close> reads it.
\<close>

definition BPL_break_point :: "real \<Rightarrow> real \<Rightarrow> real \<Rightarrow> real" where
  "BPL_break_point minpl maxpl b = minpl + b * (maxpl - minpl)"

definition BPL_PL1 :: "real \<Rightarrow> real \<Rightarrow> real \<Rightarrow> real \<Rightarrow> basic_1dimpdf" where
  "BPL_PL1 minpl maxpl alpha_1 b = PowerLaw minpl (BPL_break_point minpl maxpl b) alpha_1"

definition BPL_PL2 :: "real \<Rightarrow> real \<Rightarrow> real \<Rightarrow> real \<Rightarrow> basic_1dimpdf" where
  "BPL_PL2 minpl maxpl alpha_2 b = PowerLaw (BPL_break_point minpl maxpl b) maxpl alpha_2"

definition BPL_norm_fact :: "real \<Rightarrow> real \<Rightarrow> real \<Rightarrow> real \<Rightarrow> real \<Rightarrow> pyfloat" where
  "BPL_norm_fact minpl maxpl alpha_1 alpha_2 b =
     (let break_point = BPL_break_point minpl maxpl b
      in fadd (Fin 1)
           (fdiv (pdf (BPL_PL1 minpl maxpl alpha_1 b) [Fin break_point] ! 0)
                 (pdf (BPL_PL2 minpl maxpl alpha_2 b) [Fin break_point] ! 0)))"

definition BPL_first :: "real \<Rightarrow> real \<Rightarrow> real \<Rightarrow> real \<Rightarrow> real \<Rightarrow> pyfloat \<Rightarrow> pyfloat" where
  "BPL_first minpl maxpl alpha_1 alpha_2 b x =
     log_pdf (BPL_PL1 minpl maxpl alpha_1 b) [x] ! 0"

definition BPL_second :: "real \<Rightarrow> real \<Rightarrow> real \<Rightarrow> real \<Rightarrow> real \<Rightarrow> pyfloat \<Rightarrow> pyfloat" where
  "BPL_second minpl maxpl alpha_1 alpha_2 b x =
     (let break_point = BPL_break_point minpl maxpl b
      in fsub (fadd (log_pdf (BPL_PL2 minpl maxpl alpha_2 b) [x] ! 0)
                    (log_pdf (BPL_PL1 minpl maxpl alpha_1 b) [Fin break_point] ! 0))
              (log_pdf (BPL_PL2 minpl maxpl alpha_2 b) [Fin break_point] ! 0))"

definition BrokenPowerLaw :: "real \<Rightarrow> real \<Rightarrow> real \<Rightarrow> real \<Rightarrow> real \<Rightarrow> basic_1dimpdf" where
  "BrokenPowerLaw minpl maxpl alpha_1 alpha_2 b =
     (let break_point = BPL_break_point minpl maxpl b;
          PL1 = BPL_PL1 minpl maxpl alpha_1 b;
          PL2 = BPL_PL2 minpl maxpl alpha_2 b;
          norm_fact = BPL_norm_fact minpl maxpl alpha_1 alpha_2 b
      in \<lparr>minval = minpl, maxval = maxpl,
          sub_log_pdf = (\<lambda>x.
            fsub (logaddexp (BPL_first minpl maxpl alpha_1 alpha_2 b x)
                            (BPL_second minpl maxpl alpha_1 alpha_2 b x))
                 (flog norm_fact)),
          sub_log_cdf = (\<lambda>x.
            flog (fdiv (fadd (cdf PL1 [x] ! 0)
                             (fmul (cdf PL2 [x] ! 0)
                                   (fdiv (pdf PL1 [Fin break_point] ! 0)
                                         (pdf PL2 [Fin break_point] ! 0))))
                       norm_fact))\<rparr>)"

section \<open>Beta distribution parameters (priors.py)\<close>

text \<open>
  \<^verbatim>\<open>betadistro_muvar2ab(mu, var)\<close> and \<^verbatim>\<open>betadistro_ab2muvar(a, b)\<close>, every
  operation followed by the rounding \<open>rnd\<close>, in the order in which Python evaluates
  them (\<^verbatim>\<open>1./mu\<close> is computed twice, with the same result). The second function
  returns the mean and the variance of the beta distribution with the parameters \<open>a\<close>
  and \<open>b\<close>; the summary line of its docstring repeats that of the first.
\<close>

definition betadistro_muvar2ab ::
    "(real \<Rightarrow> real) \<Rightarrow> pyfloat \<Rightarrow> pyfloat \<Rightarrow> pyfloat \<times> pyfloat" where
  "betadistro_muvar2ab rnd mu var =
     (let a = rmul rnd (rsub rnd (rdiv rnd (rsub rnd (Fin 1) mu) var) (rdiv rnd (Fin 1) mu))
                       (rpow rnd mu 2)
      in (a, rmul rnd a (rsub rnd (rdiv rnd (Fin 1) mu) (Fin 1))))"

definition betadistro_ab2muvar ::
    "(real \<Rightarrow> real) \<Rightarrow> pyfloat \<Rightarrow> pyfloat \<Rightarrow> pyfloat \<times> pyfloat" where
  "betadistro_ab2muvar rnd a b =
     (rdiv rnd a (radd rnd a b),
      rdiv rnd (rmul rnd a b)
               (rmul rnd (rpow rnd (radd rnd a b) 2) (radd rnd (radd rnd a b) (Fin 1))))"

section \<open>The smoothed distribution (priors.py)\<close>

text \<open>numpy's array functions used by the constructor. \<open>linspace start stop num\<close> has
  \<open>num\<close> equally spaced points from \<open>start\<close> to \<open>stop\<close>; \<open>np_diff x\<close> is
  \<^verbatim>\<open>x[1:] - x[:-1]\<close>; \<open>midpoints x\<close> is \<^verbatim>\<open>(x[:-1] + x[1:]) * 0.5\<close>;
  \<open>trapz y x\<close> is \<^verbatim>\<open>(diff(x) * (y[1:] + y[:-1]) / 2.0).sum()\<close>.\<close>

definition linspace :: "real \<Rightarrow> real \<Rightarrow> nat \<Rightarrow> real list" where
  "linspace start stop num =
     map (\<lambda>i. start + real i * ((stop - start) / real (num - 1))) [0..<num]"

definition np_diff :: "real list \<Rightarrow> real list" where
  "np_diff x = map2 (\<lambda>a b. a - b) (tl x) (butlast x)"

definition midpoints :: "real list \<Rightarrow> real list" where
  "midpoints x = map2 (\<lambda>a b. (a + b) * (1 / 2)) (butlast x) (tl x)"

definition trapz :: "pyfloat list \<Rightarrow> real list \<Rightarrow> pyfloat" where
  "trapz y x =
     fsum (map2 (\<lambda>d s. fdiv (fmul (Fin d) s) (Fin 2))
             (np_diff x) (map2 fadd (tl y) (butlast y)))"

fun cumsum_from :: "pyfloat \<Rightarrow> pyfloat list \<Rightarrow> pyfloat list" where
  "cumsum_from acc [] = []"
| "cumsum_from acc (y # ys) = fadd acc y # cumsum_from (fadd acc y) ys"

definition cumsum :: "pyfloat list \<Rightarrow> pyfloat list" where
  "cumsum y = cumsum_from (Fin 0) y"

text \<open>\<^verbatim>\<open>xp.interp(x, xp, fp)\<close> for an increasing grid \<open>xp\<close> and a finite \<open>x\<close>
  (the module calls it on entries inside the window only): \<open>fp[0]\<close> left of the grid,
  \<open>fp[-1]\<close> from the last point on, the value at a grid point, and the chord between
  two neighbours otherwise. \<open>chord\<close> is numpy's evaluation of it:
  \<^verbatim>\<open>slope*(x - xp[j]) + fp[j]\<close>; when that is \<^verbatim>\<open>nan\<close> the same from the right
  neighbour; and when that is \<^verbatim>\<open>nan\<close> too and the two values are equal, that
  value. numpy raises on an empty grid; the tables of this module have 999 points.\<close>

definition chord :: "real \<Rightarrow> real \<Rightarrow> pyfloat \<Rightarrow> pyfloat \<Rightarrow> real \<Rightarrow> pyfloat" where
  "chord x0 x1 f0 f1 x =
     (let slope = fdiv (fsub f1 f0) (Fin (x1 - x0));
          r = fadd (fmul slope (Fin (x - x0))) f0
      in if isnan r
         then (let r' = fadd (fmul slope (Fin (x - x1))) f1
               in if isnan r' \<and> feq f0 f1 then f0 else r')
         else r)"

fun interp_search :: "real \<Rightarrow> real list \<Rightarrow> pyfloat list \<Rightarrow> pyfloat" where
  "interp_search x (x0 # x1 # xs) (f0 # f1 # fs) =
     (if x < x1
      then (if x = x0 then f0 else chord x0 x1 f0 f1 x)
      else interp_search x (x1 # xs) (f1 # fs))"
| "interp_search x [x0] (f0 # fs) = f0"
| "interp_search x _ _ = NaN"

definition interp :: "pyfloat \<Rightarrow> real list \<Rightarrow> pyfloat list \<Rightarrow> pyfloat" where
  "interp v xs fs =
     (case v of
        Fin x \<Rightarrow> (if xs = [] \<or> fs = [] then NaN
                  else if x < hd xs then hd fs
                  else interp_search x xs fs)
      | _ \<Rightarrow> NaN)"

text \<open>
  \<^verbatim>\<open>LowpassSmoothedProb(originprob, bottomsmooth)\<close>, written \<open>p\<close> and \<open>s\<close>. The
  constructor computes the two integrals and the normalisation, then the table of the
  numeric cdf, for which it calls its own \<^verbatim>\<open>pdf\<close>: \<open>LSP_under_construction\<close> is the
  object at that moment, with the bounds and \<^verbatim>\<open>_log_pdf\<close> in place (its
  \<^verbatim>\<open>_log_cdf\<close> is not read and stands as \<^verbatim>\<open>nan\<close>).
\<close>

definition LSP_int_array :: "basic_1dimpdf \<Rightarrow> real \<Rightarrow> real list" where
  "LSP_int_array p s = linspace (minval p) (minval p + s) 1000"

definition LSP_integral_before :: "basic_1dimpdf \<Rightarrow> real \<Rightarrow> pyfloat" where
  "LSP_integral_before p s =
     trapz (pdf p (map Fin (LSP_int_array p s))) (LSP_int_array p s)"

definition LSP_integral_now :: "basic_1dimpdf \<Rightarrow> real \<Rightarrow> pyfloat" where
  "LSP_integral_now p s =
     trapz (map2 fmul (pdf p (map Fin (LSP_int_array p s)))
                      (highpass_filter (map Fin (LSP_int_array p s)) (minval p) s))
           (LSP_int_array p s)"

definition LSP_norm :: "basic_1dimpdf \<Rightarrow> real \<Rightarrow> pyfloat" where
  "LSP_norm p s = fadd (fsub (Fin 1) (LSP_integral_before p s)) (LSP_integral_now p s)"

definition LSP_log_pdf :: "basic_1dimpdf \<Rightarrow> real \<Rightarrow> pyfloat \<Rightarrow> pyfloat" where
  "LSP_log_pdf p s v =
     (let window = highpass_filter [v] (minval p) s ! 0
      in fsub (fadd (log_pdf p [v] ! 0) (flog window)) (flog (LSP_norm p s)))"

definition LSP_under_construction :: "basic_1dimpdf \<Rightarrow> real \<Rightarrow> basic_1dimpdf" where
  "LSP_under_construction p s =
     \<lparr>minval = minval p, maxval = maxval p,
      sub_log_pdf = LSP_log_pdf p s, sub_log_cdf = (\<lambda>v. NaN)\<rparr>"

definition LSP_x_eval :: "basic_1dimpdf \<Rightarrow> real \<Rightarrow> real list" where
  "LSP_x_eval p s = linspace (minval p) (minval p + s) 1000"

definition LSP_cdf_numeric :: "basic_1dimpdf \<Rightarrow> real \<Rightarrow> pyfloat list" where
  "LSP_cdf_numeric p s =
     map2 (\<lambda>c d. fmul c (Fin d))
       (cumsum (pdf (LSP_under_construction p s) (map Fin (midpoints (LSP_x_eval p s)))))
       (np_diff (LSP_x_eval p s))"

text \<open>\<^verbatim>\<open>_log_cdf\<close>: the array starts as ones and the three masks are written in the
  order of the source, so that the tail wins at the window edge.\<close>

definition LSP_log_cdf :: "basic_1dimpdf \<Rightarrow> real \<Rightarrow> pyfloat \<Rightarrow> pyfloat" where
  "LSP_log_cdf p s v =
     (let bottom = minval p;
          toret = Fin 1;
          toret = (if flt v (Fin bottom) then Fin 0 else toret);
          toret = (if fge v (Fin bottom) \<and> fle v (Fin (bottom + s))
                   then interp v (midpoints (LSP_x_eval p s)) (LSP_cdf_numeric p s)
                   else toret);
          toret = (if fge v (Fin (bottom + s))
                   then fdiv (fsub (fadd (LSP_integral_now p s) (cdf p [v] ! 0))
                                   (cdf p [Fin (bottom + s)] ! 0))
                             (LSP_norm p s)
                   else toret)
      in flog toret)"

definition LowpassSmoothedProb :: "basic_1dimpdf \<Rightarrow> real \<Rightarrow> basic_1dimpdf" where
  "LowpassSmoothedProb p s = (LSP_under_construction p s)\<lparr>sub_log_cdf := LSP_log_cdf p s\<rparr>"


text \<open>The trapezoid rule over the reals, as the spec names it: the sum over
  neighbouring grid points of the width times the mean of the two values.\<close>

definition trapezoid_rule :: "real list \<Rightarrow> real list \<Rightarrow> real" where
  "trapezoid_rule x y =
     (\<Sum>i<length x - 1. (x ! Suc i - x ! i) * ((y ! Suc i + y ! i) / 2))"

text \<open>A finite, non-negative float.\<close>

fun nonneg :: "pyfloat \<Rightarrow> bool" where
  "nonneg (Fin r) = (0 \<le> r)"
| "nonneg _ = False"

section \<open>Example inputs\<close>

text \<open>One event with 50 effective posterior samples out of 100, ten effective
  injections out of 100, unit weights and rates; an evaluator built with the default
  thresholds and one built with the variance threshold 1.\<close>

definition ex_collab :: collaborators where
  "ex_collab =
     \<lparr>Neff = Fin 10, ntotal = Fin 100, pseudo_rate = Fin 1, Tobs = Fin 1, Nexp = Fin 1,
      n_ev = 1, neff_PE_ev = [Fin 50], Ns_array = [Fin 100], sum_weights = [Fin 1],
      scale_free = True\<rparr>"

definition ex_self :: hierarchical_likelihood where
  "ex_self = hierarchical_likelihood_init 1 (Fin 20) None None"

definition ex_self_var :: hierarchical_likelihood where
  "ex_self_var = hierarchical_likelihood_init 1 (Fin 20) None (Some (Fin 1))"

text \<open>The same input with no effective injection and an event whose effective number
  of posterior samples is \<^verbatim>\<open>nan\<close> (the Kish number of all-zero weights).\<close>

definition ex_collab_zero :: collaborators where
  "ex_collab_zero = ex_collab\<lparr>Neff := Fin 0, neff_PE_ev := [NaN]\<rparr>"

text \<open>The uniform distribution on \<open>[1, 3]\<close> as a power law of exponent 0, for the
  smoothed distribution.\<close>

definition ex_origin :: basic_1dimpdf where
  "ex_origin = PowerLaw 1 3 0"

section \<open>Facts about the float model\<close>

lemma float_max_pos: "0 < float_max"
  by (simp add: float_max_def)

lemma fsum_Fin: "foldl fadd (Fin a) (map Fin xs) = Fin (a + sum_list xs)"
  by (induction xs arbitrary: a) (simp_all add: add.assoc)

lemma fsum_map_Fin: "fsum (map Fin xs) = Fin (sum_list xs)"
  by (simp add: fsum_def fsum_Fin)

lemma map_flog_pos:
  "\<forall>w \<in> set ws. 0 < w \<Longrightarrow> map flog (map Fin ws) = map Fin (map ln ws)"
  by (induction ws) simp_all

lemma frnd_exact: "frnd (\<lambda>x. x) v = v"
  by (cases v) simp_all

lemma round_half_even_eqI:
  assumes "\<bar>y - of_int n\<bar> < 1 / 2"
  shows "round_half_even y = n"
proof -
  from assms have "of_int n - 1 / 2 < y" "y < of_int n + 1 / 2" by linarith+
  then have "\<lfloor>y\<rfloor> = n \<and> y - of_int n < 1 / 2 \<or> \<lfloor>y\<rfloor> = n - 1 \<and> 1 / 2 < y - of_int (n - 1)"
    by (cases "of_int n \<le> y") (auto simp add: floor_eq_iff)
  then show ?thesis by (auto simp add: round_half_even_def Let_def)
qed

lemma floor_log2_eqI:
  assumes "2 powi k \<le> x" and "x < 2 powi (k + 1)"
  shows "\<lfloor>log 2 x\<rfloor> = k"
proof -
  have "0 < (2::real) powi k" by simp
  with assms(1) have x: "0 < x" by linarith
  have p: "(2::real) powr (of_int j) = 2 powi j" for j
    by (rule powr_real_of_int') simp_all
  have "2 powr (of_int k) \<le> x \<and> x < 2 powr (of_int k + 1)"
    using assms p [of k] p [of "k + 1"] by simp
  then show ?thesis using x by (simp add: floor_log_eq_powr_iff)
qed

text \<open>How \<open>round53\<close> is evaluated: \<open>e\<close> is the exponent and \<open>n\<close> the mantissa of the
  result.\<close>

lemma round53_eqI:
  assumes "2 ^ 52 \<le> \<bar>x\<bar> * 2 powi (- e)" and "\<bar>x\<bar> * 2 powi (- e) < 2 ^ 53"
    and "\<bar>x * 2 powi (- e) - of_int n\<bar> < 1 / 2"
  shows "round53 x = of_int n * 2 powi e"
proof -
  have x0: "x \<noteq> 0" using assms(1) by auto
  have p: "(2::real) powi (- e) = 1 / 2 powi e" by (simp add: power_int_minus field_simps)
  have pe: "0 < (2::real) powi e" by simp
  have "2 powi (e + 52) \<le> \<bar>x\<bar>"
    using assms(1) pe by (simp add: p power_int_add field_simps)
  moreover have "\<bar>x\<bar> < 2 powi (e + 52 + 1)"
    using assms(2) pe by (simp add: p power_int_add field_simps)
  ultimately have "\<lfloor>log 2 \<bar>x\<bar>\<rfloor> = e + 52" by (rule floor_log2_eqI)
  moreover have "round_half_even (x / 2 powi e) = n"
    using assms(3) by (intro round_half_even_eqI) (simp add: p)
  ultimately show ?thesis using x0 by (simp add: round53_def Let_def)
qed

text \<open>\<open>round53\<close> returns a value within half a unit in the last place: the relative
  error is at most \<open>2 ^ -53\<close>.\<close>

lemma round_half_even_error: "\<bar>of_int (round_half_even y) - y\<bar> \<le> 1 / 2"
proof -
  have "of_int \<lfloor>y\<rfloor> \<le> y" "y < of_int \<lfloor>y\<rfloor> + 1" by linarith+
  then show ?thesis by (auto simp add: round_half_even_def Let_def)
qed

lemma round53_error: "\<bar>round53 x - x\<bar> \<le> \<bar>x\<bar> / 2 ^ 53"
proof (cases "x = 0")
  case True
  then show ?thesis by (simp add: round53_def)
next
  case False
  define e where "e = \<lfloor>log 2 \<bar>x\<bar>\<rfloor> - 52"
  define y where "y = x / 2 powi e"
  have pe: "0 < (2::real) powi e" by simp
  have ax: "0 < \<bar>x\<bar>" using False by simp
  have "2 powr (of_int \<lfloor>log 2 \<bar>x\<bar>\<rfloor>) \<le> \<bar>x\<bar>"
    using ax floor_log_eq_powr_iff [of "\<bar>x\<bar>" 2 "\<lfloor>log 2 \<bar>x\<bar>\<rfloor>"] by simp
  moreover have "(2::real) powr (of_int \<lfloor>log 2 \<bar>x\<bar>\<rfloor>) = 2 powi (e + 52)"
    unfolding e_def by (subst powr_real_of_int') simp_all
  ultimately have lo: "2 powi e * 2 ^ 52 \<le> \<bar>x\<bar>" by (simp add: power_int_add)
  have r: "round53 x = of_int (round_half_even y) * 2 powi e"
    using False by (simp add: round53_def Let_def e_def y_def)
  have x: "x = y * 2 powi e" by (simp add: y_def)
  have "\<bar>round53 x - x\<bar> = \<bar>of_int (round_half_even y) - y\<bar> * 2 powi e"
    unfolding r by (subst x) (simp add: abs_mult left_diff_distrib [symmetric] del: abs_mult_pos)
  also have "\<dots> \<le> 1 / 2 * 2 powi e"
    using round_half_even_error [of y] pe by (intro mult_right_mono) simp_all
  also have "\<dots> = 2 powi e * 2 ^ 52 / 2 ^ 53" by simp
  also have "\<dots> \<le> \<bar>x\<bar> / 2 ^ 53" using lo by (intro divide_right_mono) simp_all
  finally show ?thesis .
qed

lemma sanitize_Fin: "sanitize (Fin v) = Inr (Fin v)"
  by (simp add: sanitize_def feq_def)

lemma ex_self_gates_pass:
  assumes "Neff c = Fin 10" and "neff_PE_ev c = [Fin 50]"
  shows "\<not> gate_INJ ex_self c \<and> \<not> gate_PE ex_self c \<and> \<not> gate_variance ex_self c"
  using assms
  by (simp add: ex_self_def hierarchical_likelihood_init_def gate_INJ_def gate_PE_def gate_variance_def feq_def)

section \<open>Facts about the windows and the distributions\<close>

lemma fpow_two: "fpow (Fin x) 2 = Fin (x ^ 2)"
  by (simp add: is_integer_def)

lemma highpass_length: "length (highpass_filter xs mmin delta) = length xs"
  by (simp add: highpass_filter_def Let_def mask_assign_def)

lemma highpass_nth:
  assumes "i < length xs" and "delta \<noteq> 0"
  shows "highpass_filter xs mmin delta ! i =
     (if fge (xs ! i) (Fin (delta + mmin)) then Fin 1
      else if fle (xs ! i) (Fin mmin) then Fin 0
      else fdiv (Fin 1)
             (fadd (if fgt (xs ! i) (Fin mmin) \<and> flt (xs ! i) (Fin (delta + mmin))
                    then fexp (nan_to_num
                           (fadd (fdiv (Fin delta) (fsub (xs ! i) (Fin mmin)))
                                 (fdiv (Fin delta)
                                    (fsub (fsub (xs ! i) (Fin mmin)) (Fin delta)))))
                    else Fin 1)
                   (Fin 1)))"
  using assms by (simp add: highpass_filter_def Let_def mask_assign_def)

lemma highpass_nth_zero:
  assumes "i < length xs"
  shows "highpass_filter xs mmin 0 ! i = Fin 1"
  using assms by (simp add: highpass_filter_def)

lemma window_value:
  assumes "mmin < x" and "x < mmin + delta"
  shows "fdiv (Fin 1)
           (fadd (fexp (nan_to_num
                    (fadd (fdiv (Fin delta) (fsub (Fin x) (Fin mmin)))
                          (fdiv (Fin delta) (fsub (fsub (Fin x) (Fin mmin)) (Fin delta))))))
                 (Fin 1))
         = Fin (1 / (1 + exp (delta / (x - mmin) + delta / (x - mmin - delta))))"
proof -
  have "exp (delta / (x - mmin) + delta / (x - mmin - delta)) + 1 \<noteq> 0"
    using exp_gt_zero [of "delta / (x - mmin) + delta / (x - mmin - delta)"] by linarith
  then show ?thesis using assms by (simp add: fsub_def add.commute)
qed

lemma log_pdf_nth:
  "i < length x \<Longrightarrow> log_pdf d x ! i =
     (if flt (x ! i) (Fin (minval d)) \<or> fgt (x ! i) (Fin (maxval d)) then NInf
      else sub_log_pdf d (x ! i))"
  by (simp add: log_pdf_def check_bound_pdf_def check_bounds_1D_def mask_assign_def)

lemma log_pdf_single:
  "log_pdf d [v] ! 0 =
     (if flt v (Fin (minval d)) \<or> fgt v (Fin (maxval d)) then NInf else sub_log_pdf d v)"
  by (simp add: log_pdf_nth)

lemma pdf_single: "pdf d [v] ! 0 = fexp (log_pdf d [v] ! 0)"
  by (simp add: pdf_def log_pdf_def check_bound_pdf_def check_bounds_1D_def mask_assign_def)

lemma powr_diff_quot_pos:
  fixes lo hi c :: real
  assumes "0 < lo" and "lo < hi" and "c \<noteq> 0"
  shows "0 < (hi powr c - lo powr c) / c"
proof (cases "0 < c")
  case True
  then have "lo powr c < hi powr c" using assms by (simp add: powr_less_mono2)
  then show ?thesis using True by simp
next
  case False
  then have c: "c < 0" using assms by simp
  then have "hi powr c < lo powr c" using assms by (simp add: powr_less_mono2_neg)
  then show ?thesis using c by (simp add: divide_neg_neg)
qed

lemma PL_norm_real_pos:
  assumes "0 < lo" and "lo < hi"
  shows "0 < PL_norm_real lo hi alpha"
proof (cases "alpha = - 1")
  case True
  have "1 < hi / lo" using assms by simp
  then show ?thesis using True by (simp add: PL_norm_real_def)
next
  case False
  then have "alpha + 1 \<noteq> 0" by simp
  from powr_diff_quot_pos [OF assms this] False show ?thesis by (simp add: PL_norm_real_def)
qed

lemma PL_normfact_Fin:
  assumes "0 < lo" and "lo < hi"
  shows "PL_normfact lo hi alpha = Fin (PL_norm_real lo hi alpha)"
proof (cases "alpha = - 1")
  case True
  have "0 < hi / lo" using assms by simp
  then show ?thesis using True assms by (simp add: PL_normfact_def PL_norm_real_def)
next
  case False
  then have "alpha + 1 \<noteq> 0" by simp
  then show ?thesis using False assms by (simp add: PL_normfact_def PL_norm_real_def fsub_def)
qed

lemma PowerLaw_fields:
  "minval (PowerLaw lo hi alpha) = lo"
  "maxval (PowerLaw lo hi alpha) = hi"
  "sub_log_pdf (PowerLaw lo hi alpha) v =
     fsub (fmul (Fin alpha) (flog v)) (flog (PL_normfact lo hi alpha))"
  by (simp_all add: PowerLaw_def Let_def)

lemma PowerLaw_log_pdf_Fin:
  assumes "0 < lo" and "lo < hi" and "lo \<le> v" and "v \<le> hi"
  shows "log_pdf (PowerLaw lo hi alpha) [Fin v] ! 0 =
           Fin (alpha * ln v - ln (PL_norm_real lo hi alpha))"
  using assms PL_norm_real_pos [OF assms(1,2), of alpha]
  by (simp add: log_pdf_single PowerLaw_fields PL_normfact_Fin fgt_def fsub_def)

lemma PowerLaw_log_pdf_below:
  "v < lo \<Longrightarrow> log_pdf (PowerLaw lo hi alpha) [Fin v] ! 0 = NInf"
  by (simp add: log_pdf_single PowerLaw_fields)

lemma PowerLaw_log_pdf_above:
  "hi < v \<Longrightarrow> log_pdf (PowerLaw lo hi alpha) [Fin v] ! 0 = NInf"
  by (simp add: log_pdf_single PowerLaw_fields fgt_def)

lemma PL_normfact_example: "PL_normfact 5 100 (- 2) = Fin (19 / 100)"
  by (simp add: PL_normfact_def fsub_def powr_minus_divide)

lemma PowerLaw_pdf_example: "pdf (PowerLaw 5 100 (- 2)) [Fin 10] = [Fin (1 / 19)]"
proof -
  have e: "exp (- (2 * ln 10)) = (1 / 100 :: real)"
  proof -
    have "exp (- (2 * ln 10)) = (10::real) powr (- 2)" by (simp add: powr_def)
    also have "\<dots> = 1 / 100" by (simp add: powr_minus_divide)
    finally show ?thesis .
  qed
  have "exp (- (2 * ln 10) - ln (19 / 100)) = (1 / 19 :: real)"
    unfolding exp_diff e by simp
  then show ?thesis
    using PL_normfact_example
    by (simp add: pdf_def log_pdf_def check_bound_pdf_def check_bounds_1D_def mask_assign_def
        PowerLaw_fields fgt_def fsub_def)
qed

lemma break_point_between:
  assumes "minpl < maxpl" and "0 < b" and "b < 1"
  shows "minpl < BPL_break_point minpl maxpl b" and "BPL_break_point minpl maxpl b < maxpl"
proof -
  have d: "0 < maxpl - minpl" using assms by simp
  have "0 < b * (maxpl - minpl)" using assms d by simp
  then show "minpl < BPL_break_point minpl maxpl b" by (simp add: BPL_break_point_def)
  have "b * (maxpl - minpl) < 1 * (maxpl - minpl)"
    using assms d by (intro mult_strict_right_mono) simp_all
  then show "BPL_break_point minpl maxpl b < maxpl" by (simp add: BPL_break_point_def)
qed

lemma BrokenPowerLaw_fields:
  "minval (BrokenPowerLaw lo hi a1 a2 b) = lo"
  "maxval (BrokenPowerLaw lo hi a1 a2 b) = hi"
  "sub_log_pdf (BrokenPowerLaw lo hi a1 a2 b) v =
     fsub (logaddexp (BPL_first lo hi a1 a2 b v) (BPL_second lo hi a1 a2 b v))
          (flog (BPL_norm_fact lo hi a1 a2 b))"
  by (simp_all add: BrokenPowerLaw_def Let_def)

section \<open>Facts about the smoothed distribution\<close>

lemma linspace_length: "length (linspace a b n) = n"
  by (simp add: linspace_def)

lemma linspace_nth:
  "i < n \<Longrightarrow> linspace a b n ! i = a + real i * ((b - a) / real (n - 1))"
  by (simp add: linspace_def)

lemma linspace_ends:
  "linspace a b 1000 ! 0 = a" "linspace a b 1000 ! 999 = b"
  by (simp_all add: linspace_nth field_simps)

lemma LowpassSmoothedProb_fields:
  "minval (LowpassSmoothedProb p s) = minval p"
  "maxval (LowpassSmoothedProb p s) = maxval p"
  "sub_log_pdf (LowpassSmoothedProb p s) = LSP_log_pdf p s"
  "sub_log_cdf (LowpassSmoothedProb p s) = LSP_log_cdf p s"
  by (simp_all add: LowpassSmoothedProb_def LSP_under_construction_def)

lemma pdf_under_construction:
  "pdf (LSP_under_construction p s) x = pdf (LowpassSmoothedProb p s) x"
  by (simp add: pdf_def log_pdf_def check_bound_pdf_def LowpassSmoothedProb_def
      LSP_under_construction_def)

lemma highpass_range:
  assumes "i < length xs"
  shows "\<exists>w. highpass_filter xs mmin delta ! i = Fin w \<and> 0 \<le> w \<and> w \<le> 1"
proof (cases "delta = 0")
  case True
  then show ?thesis using assms by (simp add: highpass_nth_zero)
next
  case False
  note nth = highpass_nth [OF assms False, of mmin]
  show ?thesis
  proof (cases "fgt (xs ! i) (Fin mmin) \<and> flt (xs ! i) (Fin (delta + mmin))")
    case True
    then obtain x where x: "xs ! i = Fin x" "mmin < x" "x < mmin + delta"
      by (cases "xs ! i") (auto simp add: fgt_def)
    have v: "highpass_filter xs mmin delta ! i =
        Fin (1 / (1 + exp (delta / (x - mmin) + delta / (x - mmin - delta))))"
      unfolding nth using x window_value [OF x(2,3)]
      by (simp add: fge_def fle_def feq_def fgt_def add.commute)
    have "0 < exp (delta / (x - mmin) + delta / (x - mmin - delta))" by simp
    then have "0 \<le> 1 / (1 + exp (delta / (x - mmin) + delta / (x - mmin - delta)))"
      and "1 / (1 + exp (delta / (x - mmin) + delta / (x - mmin - delta))) \<le> 1"
      by (simp_all add: add_pos_pos less_imp_le)
    with v show ?thesis by simp
  next
    case False
    then have "highpass_filter xs mmin delta ! i = Fin 1 \<or>
        highpass_filter xs mmin delta ! i = Fin 0 \<or>
        highpass_filter xs mmin delta ! i = Fin (1 / 2)"
      unfolding nth by auto
    then show ?thesis by auto
  qed
qed

lemma smoothed_pdf_value:
  assumes "minval p \<le> v" and "v \<le> maxval p"
    and "LSP_norm p s = Fin n" and "0 < n"
    and "pdf p [Fin v] ! 0 = Fin q"
    and "highpass_filter [Fin v] (minval p) s ! 0 = Fin w" and "0 \<le> w"
  shows "pdf (LowpassSmoothedProb p s) [Fin v] ! 0 = Fin (q * w / n)"
proof -
  have inb: "\<not> flt (Fin v) (Fin (minval p))" "\<not> fgt (Fin v) (Fin (maxval p))"
    using assms(1,2) by (simp_all add: fgt_def)
  have lp: "log_pdf (LowpassSmoothedProb p s) [Fin v] ! 0 =
      fsub (fadd (log_pdf p [Fin v] ! 0) (flog (Fin w))) (flog (Fin n))"
    using inb assms(3,6)
    by (simp add: log_pdf_single LowpassSmoothedProb_fields LSP_log_pdf_def Let_def)
  from assms(5) have "fexp (log_pdf p [Fin v] ! 0) = Fin q" by (simp add: pdf_single)
  then consider l where "log_pdf p [Fin v] ! 0 = Fin l" "q = exp l"
    | "log_pdf p [Fin v] ! 0 = NInf" "q = 0"
    by (cases "log_pdf p [Fin v] ! 0") auto
  then show ?thesis
  proof cases
    case 1
    show ?thesis
    proof (cases "w = 0")
      case True
      then show ?thesis using 1 assms(4) by (simp add: pdf_single lp fsub_def)
    next
      case False
      then have "0 < w" using assms(7) by simp
      then show ?thesis
        using 1 assms(4) by (simp add: pdf_single lp fsub_def exp_add exp_diff)
    qed
  next
    case 2
    then show ?thesis using assms(4,7) by (cases "w = 0") (simp_all add: pdf_single lp fsub_def)
  qed
qed

lemma nonneg_fadd: "nonneg a \<Longrightarrow> nonneg b \<Longrightarrow> nonneg (fadd a b)"
  by (cases a; cases b) simp_all

lemma nonneg_fmul: "nonneg a \<Longrightarrow> nonneg b \<Longrightarrow> nonneg (fmul a b)"
  by (cases a; cases b) simp_all

lemma nonneg_half: "nonneg a \<Longrightarrow> nonneg (fdiv a (Fin 2))"
  by (cases a) simp_all

lemma foldl_fadd_nonneg:
  "nonneg acc \<Longrightarrow> \<forall>v \<in> set xs. nonneg v \<Longrightarrow> nonneg (foldl fadd acc xs)"
  by (induction xs arbitrary: acc) (simp_all add: nonneg_fadd)

lemma fsum_nonneg: "\<forall>v \<in> set xs. nonneg v \<Longrightarrow> nonneg (fsum xs)"
  by (simp add: fsum_def foldl_fadd_nonneg)

lemma trapz_nonneg:
  assumes "\<forall>v \<in> set y. nonneg v" and "\<forall>d \<in> set (np_diff x). 0 \<le> d"
  shows "nonneg (trapz y x)"
proof -
  have s: "nonneg (fadd a b)" if "(a, b) \<in> set (zip (tl y) (butlast y))" for a b
  proof -
    from that have "a \<in> set (tl y)" and "b \<in> set (butlast y)"
      by (auto dest: set_zip_leftD set_zip_rightD)
    then have "a \<in> set y" and "b \<in> set y"
      by (auto dest: in_set_butlastD list.set_sel(2) [rotated])
    with assms(1) show ?thesis by (simp add: nonneg_fadd)
  qed
  have "nonneg (fdiv (fmul (Fin d) t) (Fin 2))"
    if "(d, t) \<in> set (zip (np_diff x) (map2 fadd (tl y) (butlast y)))" for d t
  proof -
    from that have d: "d \<in> set (np_diff x)" and t: "t \<in> set (map2 fadd (tl y) (butlast y))"
      by (auto dest: set_zip_leftD set_zip_rightD)
    from t s have "nonneg t" by auto
    moreover from d assms(2) have "nonneg (Fin d)" by simp
    ultimately show ?thesis by (intro nonneg_half nonneg_fmul)
  qed
  then show ?thesis unfolding trapz_def by (intro fsum_nonneg) auto
qed

lemma np_diff_length: "length (np_diff x) = length x - 1"
  by (simp add: np_diff_def)

lemma np_diff_nth: "i < length x - 1 \<Longrightarrow> np_diff x ! i = x ! Suc i - x ! i"
  by (simp add: np_diff_def nth_tl nth_butlast)

lemma np_diff_linspace_nonneg:
  assumes "a \<le> b"
  shows "\<forall>d \<in> set (np_diff (linspace a b n)). 0 \<le> d"
proof
  fix d assume "d \<in> set (np_diff (linspace a b n))"
  then obtain i where i: "i < n - 1" and d: "d = np_diff (linspace a b n) ! i"
    by (auto simp add: in_set_conv_nth np_diff_length linspace_length)
  define st where "st = (b - a) / real (n - 1)"
  have "d = (a + real (Suc i) * st) - (a + real i * st)"
    using i unfolding d st_def by (simp add: np_diff_nth linspace_length linspace_nth)
  also have "\<dots> = st"
    by (simp add: algebra_simps)
  finally have "d = (b - a) / real (n - 1)" by (simp add: st_def)
  then show "0 \<le> d" using assms by simp
qed

lemma sum_np_diff: "xs \<noteq> [] \<Longrightarrow> sum_list (np_diff xs) = last xs - hd xs"
proof (induction xs rule: induct_list012)
  case 1
  then show ?case by simp
next
  case (2 x)
  then show ?case by (simp add: np_diff_def)
next
  case (3 x y zs)
  have "np_diff (x # y # zs) = (y - x) # np_diff (y # zs)"
    by (simp add: np_diff_def)
  with 3 show ?case by simp
qed

lemma trapz_const:
  assumes "length x = n" and "0 < n"
  shows "trapz (replicate n (Fin c)) x = Fin (c * (last x - hd x))"
proof -
  have x: "x \<noteq> []" using assms by auto
  have l: "length (np_diff x) = n - 1" using assms by (simp add: np_diff_length)
  have "map2 fadd (tl (replicate n (Fin c))) (butlast (replicate n (Fin c))) =
      replicate (n - 1) (Fin (c + c))"
    by (simp add: butlast_conv_take)
  then have "trapz (replicate n (Fin c)) x =
      fsum (map2 (\<lambda>d s. fdiv (fmul (Fin d) s) (Fin 2)) (np_diff x) (replicate (n - 1) (Fin (c + c))))"
    by (simp add: trapz_def)
  also have "\<dots> = fsum (map Fin (map (\<lambda>d. d * c) (np_diff x)))"
    using l by (simp add: zip_replicate2 comp_def)
  also have "\<dots> = Fin (sum_list (map (\<lambda>d. d * c) (np_diff x)))"
    by (rule fsum_map_Fin)
  also have "\<dots> = Fin (c * (last x - hd x))"
    by (simp add: sum_list_mult_const sum_np_diff [OF x] mult.commute)
  finally show ?thesis .
qed


lemma log_pdf_length: "length (log_pdf d x) = length x"
  by (simp add: log_pdf_def check_bound_pdf_def check_bounds_1D_def mask_assign_def)

lemma pdf_map:
  "pdf d x =
     map (\<lambda>v. fexp (if flt v (Fin (minval d)) \<or> fgt v (Fin (maxval d)) then NInf
                      else sub_log_pdf d v)) x"
  by (rule nth_equalityI) (simp_all add: pdf_def log_pdf_length log_pdf_nth)

lemma linspace_bounds:
  assumes "a \<le> b" and "v \<in> set (linspace a b n)"
  shows "a \<le> v \<and> v \<le> b"
proof -
  from assms(2) obtain i where i: "i < n" and v: "v = a + real i * ((b - a) / real (n - 1))"
    by (auto simp add: linspace_def)
  have "real i \<le> real (n - 1)" using i by simp
  then have f: "0 \<le> real i / real (n - 1)" "real i / real (n - 1) \<le> 1"
    by (simp_all add: divide_le_eq_1) linarith
  have "v = a + (real i / real (n - 1)) * (b - a)" unfolding v by simp
  moreover have "0 \<le> (real i / real (n - 1)) * (b - a)"
    using f(1) assms(1) by (intro mult_nonneg_nonneg) simp_all
  moreover have "(real i / real (n - 1)) * (b - a) \<le> 1 * (b - a)"
    using f(2) assms(1) by (intro mult_right_mono) simp_all
  ultimately show ?thesis by simp
qed

lemma ex_origin_pdf:
  assumes "1 \<le> v" and "v \<le> 3"
  shows "fexp (if flt (Fin v) (Fin (minval ex_origin)) \<or> fgt (Fin v) (Fin (maxval ex_origin))
               then NInf else sub_log_pdf ex_origin (Fin v)) = Fin (1 / 2)"
proof -
  have n: "PL_normfact 1 3 0 = Fin 2" by (simp add: PL_normfact_def fsub_def)
  have "exp (- ln 2) = (1 / 2 :: real)" by (simp add: exp_minus)
  then show ?thesis using assms by (simp add: ex_origin_def PowerLaw_fields n fgt_def fsub_def)
qed

lemma ex_origin_grid_pdf:
  "pdf ex_origin (map Fin (LSP_int_array ex_origin 1)) = replicate 1000 (Fin (1 / 2))"
proof -
  have b: "1 \<le> v \<and> v \<le> 3" if "v \<in> set (LSP_int_array ex_origin 1)" for v
    using linspace_bounds [of 1 2 v 1000] that
    by (simp add: LSP_int_array_def ex_origin_def PowerLaw_fields)
  have "pdf ex_origin (map Fin (LSP_int_array ex_origin 1)) =
      map (\<lambda>v. Fin (1 / 2)) (LSP_int_array ex_origin 1)"
    unfolding pdf_map map_map comp_def
    by (rule map_cong [OF refl]) (use b ex_origin_pdf in blast)
  also have "\<dots> = replicate 1000 (Fin (1 / 2))"
    by (simp add: map_replicate_const LSP_int_array_def linspace_length)
  finally show ?thesis .
qed

lemma ex_origin_norm: "\<exists>n. LSP_norm ex_origin 1 = Fin n \<and> 1 / 2 \<le> n"
proof -
  have len: "length (LSP_int_array ex_origin 1) = 1000"
    by (simp add: LSP_int_array_def linspace_length)
  have ne: "LSP_int_array ex_origin 1 \<noteq> []" using len by auto
  have ends: "hd (LSP_int_array ex_origin 1) = 1" "last (LSP_int_array ex_origin 1) = 2"
    unfolding hd_conv_nth [OF ne] last_conv_nth [OF ne] len
    using linspace_ends [of 1 2]
    by (simp_all add: LSP_int_array_def ex_origin_def PowerLaw_fields)
  have ib: "LSP_integral_before ex_origin 1 = Fin (1 / 2)"
    unfolding LSP_integral_before_def ex_origin_grid_pdf
    using trapz_const [OF len, of "1 / 2"] ends by simp
  have hp: "nonneg w"
    if "w \<in> set (highpass_filter (map Fin (LSP_int_array ex_origin 1)) (minval ex_origin) 1)" for w
  proof -
    from that obtain i where
      "i < length (highpass_filter (map Fin (LSP_int_array ex_origin 1)) (minval ex_origin) 1)"
      and w: "w = highpass_filter (map Fin (LSP_int_array ex_origin 1)) (minval ex_origin) 1 ! i"
      by (auto simp add: in_set_conv_nth)
    then have "i < length (map Fin (LSP_int_array ex_origin 1))" by (simp add: highpass_length)
    from highpass_range [OF this, of "minval ex_origin" 1] show ?thesis unfolding w by auto
  qed
  have "nonneg v"
    if "v \<in> set (map2 fmul (pdf ex_origin (map Fin (LSP_int_array ex_origin 1)))
             (highpass_filter (map Fin (LSP_int_array ex_origin 1)) (minval ex_origin) 1))" for v
  proof -
    from that obtain a w where v: "v = fmul a w" and
      "(a, w) \<in> set (zip (replicate 1000 (Fin (1 / 2)))
          (highpass_filter (map Fin (LSP_int_array ex_origin 1)) (minval ex_origin) 1))"
      unfolding ex_origin_grid_pdf by auto
    then have "a \<in> set (replicate 1000 (Fin (1 / 2)))" and
      "w \<in> set (highpass_filter (map Fin (LSP_int_array ex_origin 1)) (minval ex_origin) 1)"
      by (auto dest: set_zip_leftD set_zip_rightD)
    then have "nonneg a" and "nonneg w" using hp by simp_all
    then show ?thesis unfolding v by (rule nonneg_fmul)
  qed
  moreover have "\<forall>d \<in> set (np_diff (LSP_int_array ex_origin 1)). 0 \<le> d"
    unfolding LSP_int_array_def by (rule np_diff_linspace_nonneg) simp
  ultimately have "nonneg (LSP_integral_now ex_origin 1)"
    unfolding LSP_integral_now_def by (intro trapz_nonneg) blast+
  then obtain t where "LSP_integral_now ex_origin 1 = Fin t" and "0 \<le> t"
    by (cases "LSP_integral_now ex_origin 1") simp_all
  then show ?thesis by (simp add: LSP_norm_def ib fsub_def)
qed

lemma sum_list_map2_nth:
  fixes f :: "'a \<Rightarrow> 'b \<Rightarrow> real"
  assumes "length xs = length ys"
  shows "sum_list (map2 f xs ys) = (\<Sum>i<length xs. f (xs ! i) (ys ! i))"
proof -
  have "sum_list (map2 f xs ys) = (\<Sum>i = 0..<length (map2 f xs ys). map2 f xs ys ! i)"
    by (rule sum_list_sum_nth)
  also have "\<dots> = (\<Sum>i = 0..<length xs. f (xs ! i) (ys ! i))"
    using assms by (intro sum.cong) simp_all
  finally show ?thesis by (simp add: atLeast0LessThan)
qed

lemma trapz_Fin:
  assumes "length y = length x"
  shows "trapz (map Fin y) x = Fin (trapezoid_rule x y)"
proof -
  have a: "map2 fadd (tl (map Fin y)) (butlast (map Fin y)) =
      map Fin (map2 (+) (tl y) (butlast y))"
    by (simp add: map_tl [symmetric] map_butlast [symmetric] zip_map_map case_prod_beta)
  have b: "map2 (\<lambda>d s. fdiv (fmul (Fin d) s) (Fin 2)) ds (map Fin ss) =
      map Fin (map2 (\<lambda>d s. d * (s / 2)) ds ss)" for ds ss
    by (simp add: zip_map2 case_prod_beta)
  have l: "length (np_diff x) = length (map2 (+) (tl y) (butlast y))"
    using assms by (simp add: np_diff_length)
  have "trapz (map Fin y) x =
      Fin (sum_list (map2 (\<lambda>d s. d * (s / 2)) (np_diff x) (map2 (+) (tl y) (butlast y))))"
    unfolding trapz_def a b by (rule fsum_map_Fin)
  also have "sum_list (map2 (\<lambda>d s. d * (s / 2)) (np_diff x) (map2 (+) (tl y) (butlast y))) =
      (\<Sum>i<length (np_diff x). np_diff x ! i * (map2 (+) (tl y) (butlast y) ! i / 2))"
    by (rule sum_list_map2_nth [OF l])
  also have "\<dots> = trapezoid_rule x y"
    unfolding trapezoid_rule_def np_diff_length
    using assms by (intro sum.cong) (simp_all add: np_diff_nth nth_tl nth_butlast)
  finally show ?thesis .
qed

lemma highpass_map_Fin:
  "\<exists>ws. highpass_filter xs mmin delta = map Fin ws \<and> (\<forall>w \<in> set ws. 0 \<le> w \<and> w \<le> 1)"
proof -
  define ws where "ws = map (\<lambda>v. case v of Fin w \<Rightarrow> w | _ \<Rightarrow> 0) (highpass_filter xs mmin delta)"
  have e: "\<exists>w. highpass_filter xs mmin delta ! i = Fin w \<and> 0 \<le> w \<and> w \<le> 1"
    if "i < length xs" for i
    using that by (rule highpass_range)
  have "highpass_filter xs mmin delta = map Fin ws"
  proof (rule nth_equalityI)
    show "length (highpass_filter xs mmin delta) = length (map Fin ws)"
      by (simp add: ws_def)
    fix i assume "i < length (highpass_filter xs mmin delta)"
    then have i: "i < length xs" by (simp add: highpass_length)
    from e [OF i] obtain w where "highpass_filter xs mmin delta ! i = Fin w" by blast
    then show "highpass_filter xs mmin delta ! i = map Fin ws ! i"
      using i by (simp add: ws_def highpass_length)
  qed
  moreover have "\<forall>w \<in> set ws. 0 \<le> w \<and> w \<le> 1"
  proof
    fix w assume "w \<in> set ws"
    then obtain i where i: "i < length xs" and w: "w = ws ! i"
      by (auto simp add: in_set_conv_nth ws_def highpass_length)
    from e [OF i] obtain w' where w': "highpass_filter xs mmin delta ! i = Fin w'"
      "0 \<le> w'" "w' \<le> 1" by blast
    have "w = w'" using i w w' by (simp add: ws_def highpass_length)
    with w' show "0 \<le> w \<and> w \<le> 1" by simp
  qed
  ultimately show ?thesis by blast
qed

lemma LSP_integrals_Fin:
  assumes "pdf p (map Fin (LSP_int_array p s)) = map Fin ys"
  shows "\<exists>ws. highpass_filter (map Fin (LSP_int_array p s)) (minval p) s = map Fin ws \<and>
      (\<forall>w \<in> set ws. 0 \<le> w \<and> w \<le> 1) \<and>
      LSP_integral_before p s = Fin (trapezoid_rule (LSP_int_array p s) ys) \<and>
      LSP_integral_now p s = Fin (trapezoid_rule (LSP_int_array p s) (map2 (*) ys ws)) \<and>
      LSP_norm p s =
        Fin (1 - trapezoid_rule (LSP_int_array p s) ys +
             trapezoid_rule (LSP_int_array p s) (map2 (*) ys ws))"
proof -
  obtain ws where ws: "highpass_filter (map Fin (LSP_int_array p s)) (minval p) s = map Fin ws"
    "\<forall>w \<in> set ws. 0 \<le> w \<and> w \<le> 1"
    using highpass_map_Fin by blast
  have "length (pdf p (map Fin (LSP_int_array p s))) = length (LSP_int_array p s)"
    by (simp add: pdf_def log_pdf_length)
  then have ly: "length ys = length (LSP_int_array p s)" using assms by simp
  have "length (highpass_filter (map Fin (LSP_int_array p s)) (minval p) s) =
      length (LSP_int_array p s)"
    by (simp add: highpass_length)
  then have lw: "length ws = length (LSP_int_array p s)" using ws(1) by simp
  have ib: "LSP_integral_before p s = Fin (trapezoid_rule (LSP_int_array p s) ys)"
    unfolding LSP_integral_before_def assms by (rule trapz_Fin [OF ly])
  have m: "map2 fmul (map Fin ys) (map Fin ws) = map Fin (map2 (*) ys ws)"
    by (simp add: zip_map_map case_prod_beta)
  have "LSP_integral_now p s = Fin (trapezoid_rule (LSP_int_array p s) (map2 (*) ys ws))"
    unfolding LSP_integral_now_def assms ws(1) m
    by (rule trapz_Fin) (simp add: ly lw)
  with ib ws show ?thesis by (auto simp add: LSP_norm_def fsub_def)
qed


lemma midpoints_length: "length (midpoints x) = length x - 1"
  by (simp add: midpoints_def)

lemma midpoints_nth:
  "i < length x - 1 \<Longrightarrow> midpoints x ! i = (x ! i + x ! Suc i) * (1 / 2)"
  by (simp add: midpoints_def nth_butlast nth_tl)

lemma cumsum_from_length: "length (cumsum_from acc ys) = length ys"
  by (induction ys arbitrary: acc) simp_all

lemma cumsum_from_nth:
  "k < length ys \<Longrightarrow> cumsum_from acc ys ! k = foldl fadd acc (take (Suc k) ys)"
proof (induction ys arbitrary: acc k)
  case Nil
  then show ?case by simp
next
  case (Cons y ys)
  then show ?case by (cases k) simp_all
qed

lemma cumsum_length: "length (cumsum ys) = length ys"
  by (simp add: cumsum_def cumsum_from_length)

lemma cumsum_nth: "k < length ys \<Longrightarrow> cumsum ys ! k = fsum (take (Suc k) ys)"
  by (simp add: cumsum_def fsum_def cumsum_from_nth)

lemma strict_sorted_nth_le:
  fixes xs :: "real list"
  shows "sorted_wrt (<) xs \<Longrightarrow> i \<le> j \<Longrightarrow> j < length xs \<Longrightarrow> xs ! i \<le> xs ! j"
  using sorted_wrt_nth_less [of "(<)" xs i j] by (cases "i = j") auto

lemma interp_search_last:
  "xs \<noteq> [] \<Longrightarrow> length fs = length xs \<Longrightarrow> last xs \<le> x \<Longrightarrow> sorted_wrt (<) xs \<Longrightarrow>
     interp_search x xs fs = last fs"
proof (induction x xs fs rule: interp_search.induct)
  case (1 x x0 x1 xs f0 f1 fs)
  have "(x0 # x1 # xs) ! 1 \<le> (x0 # x1 # xs) ! (length (x0 # x1 # xs) - 1)"
    using 1(5) by (intro strict_sorted_nth_le) simp_all
  moreover have "last (x0 # x1 # xs) = (x0 # x1 # xs) ! (length (x0 # x1 # xs) - 1)"
    by (rule last_conv_nth) simp
  ultimately have "x1 \<le> last (x0 # x1 # xs)" by simp
  with 1(4) have "x1 \<le> x" by simp
  with 1 show ?case by simp
qed simp_all

lemma interp_search_chord:
  "Suc k < length xs \<Longrightarrow> length fs = length xs \<Longrightarrow> sorted_wrt (<) xs \<Longrightarrow>
   xs ! k \<le> x \<Longrightarrow> x < xs ! Suc k \<Longrightarrow>
     interp_search x xs fs =
       (if x = xs ! k then fs ! k
        else chord (xs ! k) (xs ! Suc k) (fs ! k) (fs ! Suc k) x)"
proof (induction x xs fs arbitrary: k rule: interp_search.induct)
  case (1 x x0 x1 xs f0 f1 fs)
  show ?case
  proof (cases k)
    case 0
    with 1 show ?thesis by simp
  next
    case (Suc j)
    have "(x1 # xs) ! 0 \<le> (x1 # xs) ! j"
      using 1(4) 1(2) Suc by (intro strict_sorted_nth_le) simp_all
    with 1(5) Suc have "x1 \<le> x" by simp
    with 1 Suc show ?thesis by simp
  qed
qed simp_all

lemma chord_Fin:
  "x0 \<noteq> x1 \<Longrightarrow>
     chord x0 x1 (Fin t0) (Fin t1) x = Fin ((t1 - t0) / (x1 - x0) * (x - x0) + t0)"
  by (simp add: chord_def Let_def fsub_def)

lemma interp_left:
  "xs \<noteq> [] \<Longrightarrow> fs \<noteq> [] \<Longrightarrow> x < xs ! 0 \<Longrightarrow> interp (Fin x) xs fs = fs ! 0"
  by (simp add: interp_def hd_conv_nth)

lemma interp_chord:
  assumes "Suc k < length xs" and "length fs = length xs" and "sorted_wrt (<) xs"
    and "xs ! k \<le> x" and "x < xs ! Suc k"
  shows "interp (Fin x) xs fs =
       (if x = xs ! k then fs ! k
        else chord (xs ! k) (xs ! Suc k) (fs ! k) (fs ! Suc k) x)"
proof -
  have ne: "xs \<noteq> []" "fs \<noteq> []" using assms(1,2) by auto
  have "xs ! 0 \<le> xs ! k" using assms(1,3) by (intro strict_sorted_nth_le) simp_all
  then have "\<not> x < hd xs" using assms(4) ne by (simp add: hd_conv_nth)
  then have "interp (Fin x) xs fs = interp_search x xs fs" using ne by (simp add: interp_def)
  then show ?thesis using interp_search_chord [OF assms] by simp
qed

lemma interp_right:
  assumes "xs \<noteq> []" and "length fs = length xs" and "sorted_wrt (<) xs"
    and "xs ! (length xs - 1) \<le> x"
  shows "interp (Fin x) xs fs = fs ! (length xs - 1)"
proof -
  have ne: "fs \<noteq> []" using assms(1,2) by auto
  have "xs ! 0 \<le> xs ! (length xs - 1)"
    using assms(1,3) by (intro strict_sorted_nth_le) simp_all
  then have "\<not> x < hd xs" using assms(1,4) by (simp add: hd_conv_nth)
  then have "interp (Fin x) xs fs = interp_search x xs fs"
    using assms(1) ne by (simp add: interp_def)
  moreover have "last xs \<le> x" using assms(1,4) by (simp add: last_conv_nth)
  ultimately show ?thesis
    using interp_search_last [OF assms(1,2) _ assms(3), of x] ne assms(2)
    by (simp add: last_conv_nth)
qed

lemma grid_nth:
  "j < 1000 \<Longrightarrow> LSP_int_array p s ! j = minval p + real j * (s / 999)"
  by (simp add: LSP_int_array_def linspace_nth)

lemma grid_midpoints_length: "length (midpoints (LSP_int_array p s)) = 999"
  by (simp add: midpoints_length LSP_int_array_def linspace_length)

lemma grid_midpoints_nth:
  assumes "j < 999"
  shows "midpoints (LSP_int_array p s) ! j = minval p + (real j + 1 / 2) * (s / 999)"
proof -
  have "midpoints (LSP_int_array p s) ! j =
      (LSP_int_array p s ! j + LSP_int_array p s ! Suc j) * (1 / 2)"
    using assms by (intro midpoints_nth) (simp add: LSP_int_array_def linspace_length)
  also have "\<dots> = minval p + (real j + 1 / 2) * (s / 999)"
    using assms by (simp add: grid_nth field_simps)
  finally show ?thesis .
qed

lemma grid_midpoints_sorted:
  assumes "0 < s"
  shows "sorted_wrt (<) (midpoints (LSP_int_array p s))"
proof -
  have "midpoints (LSP_int_array p s) ! i < midpoints (LSP_int_array p s) ! j"
    if "i < j" "j < 999" for i j
  proof -
    have "(real i + 1 / 2) * (s / 999) < (real j + 1 / 2) * (s / 999)"
      using that assms by (intro mult_strict_right_mono) simp_all
    then show ?thesis using that by (simp add: grid_midpoints_nth)
  qed
  then show ?thesis by (simp add: sorted_wrt_iff_nth_less grid_midpoints_length)
qed

lemma pdf_length: "length (pdf d x) = length x"
  by (simp add: pdf_map)

lemma table_length: "length (LSP_cdf_numeric p s) = 999"
  by (simp add: LSP_cdf_numeric_def cumsum_length pdf_length midpoints_length np_diff_length
      LSP_x_eval_def linspace_length)

lemma take_pdf:
  assumes "n \<le> length xs"
  shows "take n (pdf d (map Fin xs)) = map (\<lambda>j. pdf d [Fin (xs ! j)] ! 0) [0..<n]"
  using assms by (intro nth_equalityI) (simp_all add: pdf_map)

lemma table_nth:
  assumes "k < 999"
  shows "LSP_cdf_numeric p s ! k =
     fmul (fsum (map (\<lambda>j. pdf (LowpassSmoothedProb p s)
                       [Fin ((LSP_int_array p s ! j + LSP_int_array p s ! Suc j) * (1 / 2))] ! 0)
                  [0..<Suc k]))
          (Fin (LSP_int_array p s ! Suc k - LSP_int_array p s ! k))"
proof -
  let ?g = "LSP_int_array p s"
  let ?d = "LowpassSmoothedProb p s"
  have lg: "length ?g = 1000" by (simp add: LSP_int_array_def linspace_length)
  have "LSP_cdf_numeric p s =
      map2 (\<lambda>c d. fmul c (Fin d)) (cumsum (pdf ?d (map Fin (midpoints ?g)))) (np_diff ?g)"
    by (simp add: LSP_cdf_numeric_def LSP_x_eval_def LSP_int_array_def pdf_under_construction)
  then have "LSP_cdf_numeric p s ! k =
      fmul (cumsum (pdf ?d (map Fin (midpoints ?g))) ! k) (Fin (np_diff ?g ! k))"
    using assms by (simp add: cumsum_length pdf_length midpoints_length np_diff_length lg)
  also have "cumsum (pdf ?d (map Fin (midpoints ?g))) ! k =
      fsum (take (Suc k) (pdf ?d (map Fin (midpoints ?g))))"
    using assms by (intro cumsum_nth) (simp add: pdf_length midpoints_length lg)
  also have "take (Suc k) (pdf ?d (map Fin (midpoints ?g))) =
      map (\<lambda>j. pdf ?d [Fin (midpoints ?g ! j)] ! 0) [0..<Suc k]"
    using assms by (intro take_pdf) (simp add: midpoints_length lg)
  also have "\<dots> = map (\<lambda>j. pdf ?d [Fin ((?g ! j + ?g ! Suc j) * (1 / 2))] ! 0) [0..<Suc k]"
  proof (intro map_cong refl)
    fix j assume "j \<in> set [0..<Suc k]"
    then have "j < length ?g - 1" using assms by (auto simp add: lg)
    then show "pdf ?d [Fin (midpoints ?g ! j)] ! 0 =
        pdf ?d [Fin ((?g ! j + ?g ! Suc j) * (1 / 2))] ! 0"
      by (simp only: midpoints_nth)
  qed
  also have "np_diff ?g ! k = ?g ! Suc k - ?g ! k"
    using assms by (intro np_diff_nth) (simp add: lg)
  finally show ?thesis .
qed

section \<open>The claims about the likelihood\<close>

text \<open>
  C1 (as amended). Whenever the effective number of injections is below
  \<^verbatim>\<open>neffINJ\<close> or equal to zero, \<^verbatim>\<open>log_likelihood\<close> returns a value and
  raises nothing; the value is \<^verbatim>\<open>nan_to_num(-inf)\<close>, the most negative finite
  double, not \<^verbatim>\<open>-inf\<close>. In particular an evaluator constructed without a
  variance threshold and with \<^verbatim>\<open>neffINJ\<close> above \<open>Neff\<close> returns that value
  whatever the other collaborators hold.
\<close>

theorem C1_injection_gate_rejects:
  "(flt (Neff c) (neffINJ self) \<or> feq (Neff c) (Fin 0) \<longrightarrow>
      log_likelihood self c = Inr (Fin (- float_max))) \<and>
   (flt (Neff c) N \<longrightarrow>
      log_likelihood (hierarchical_likelihood_init n pe (Some N) None) c = Inr (Fin (- float_max)))"
  by (simp add: log_likelihood_def gate_INJ_def hierarchical_likelihood_init_def)

theorem C1_injection_gate_rejects_witness:
  "flt (Neff (ex_collab\<lparr>Neff := Fin 1\<rparr>)) (neffINJ ex_self) \<and>
   log_likelihood ex_self (ex_collab\<lparr>Neff := Fin 1\<rparr>) = Inr (Fin (- float_max))"
proof -
  have h: "flt (Neff (ex_collab\<lparr>Neff := Fin 1\<rparr>)) (neffINJ ex_self)"
    by (simp add: ex_collab_def ex_self_def hierarchical_likelihood_init_def)
  with C1_injection_gate_rejects [of "ex_collab\<lparr>Neff := Fin 1\<rparr>" ex_self]
  show ?thesis by simp
qed

text \<open>The claim as stated fails: with one effective injection against the default
  threshold 4 the gate fires and the value returned is not \<^verbatim>\<open>-inf\<close>.\<close>

theorem C1_returns_minus_infinity_counterexample:
  "flt (Neff (ex_collab\<lparr>Neff := Fin 1\<rparr>)) (neffINJ ex_self) \<and>
   log_likelihood ex_self (ex_collab\<lparr>Neff := Fin 1\<rparr>) \<noteq> Inr NInf"
  by (simp add: ex_collab_def ex_self_def hierarchical_likelihood_init_def log_likelihood_def gate_INJ_def)

text \<open>
  C2 (as amended). An evaluator constructed with a variance threshold \<open>t\<close> has both
  effective-number thresholds set to \<open>-1\<close>, and the gates are still evaluated:
  \<^verbatim>\<open>log_likelihood\<close> rejects exactly when \<open>Neff < -1\<close>, \<open>Neff == 0\<close>, some
  per-event effective number is below \<open>-1\<close>, or the likelihood variance exceeds
  \<open>t\<close>. For effective numbers that are not below \<open>-1\<close> (all non-negative ones)
  this is: exactly when \<open>Neff == 0\<close> or the variance exceeds the threshold. The
  zero check of the injection gate is not disabled.
\<close>

theorem C2_variance_mode_gates:
  "log_likelihood (hierarchical_likelihood_init n pe ninj (Some t)) c =
     (if flt (Neff c) (Fin (- 1)) \<or> feq (Neff c) (Fin 0) \<or>
         list_ex (\<lambda>x. flt x (Fin (- 1))) (neff_PE_ev c) \<or>
         fgt (likelihood_variance c) t
      then Inr (Fin (- float_max))
      else sanitize (log_likeli c)) \<and>
   (\<not> flt (Neff c) (Fin (- 1)) \<and> \<not> list_ex (\<lambda>x. flt x (Fin (- 1))) (neff_PE_ev c) \<longrightarrow>
    log_likelihood (hierarchical_likelihood_init n pe ninj (Some t)) c =
     (if feq (Neff c) (Fin 0) \<or> fgt (likelihood_variance c) t
      then Inr (Fin (- float_max))
      else sanitize (log_likeli c)))"
  by (simp add: log_likelihood_def gate_INJ_def gate_PE_def gate_variance_def hierarchical_likelihood_init_def)

theorem C2_variance_mode_gates_witness:
  "\<not> flt (Neff ex_collab) (Fin (- 1)) \<and>
   \<not> list_ex (\<lambda>x. flt x (Fin (- 1))) (neff_PE_ev ex_collab) \<and>
   log_likelihood ex_self_var ex_collab = Inr (Fin 0) \<and>
   log_likelihood ex_self_var (ex_collab\<lparr>Neff := Fin 0\<rparr>) = Inr (Fin (- float_max))"
  using C2_variance_mode_gates [of 1 "Fin 20" None "Fin 1" ex_collab]
    C2_variance_mode_gates [of 1 "Fin 20" None "Fin 1" "ex_collab\<lparr>Neff := Fin 0\<rparr>"]
  by (simp add: ex_self_var_def ex_collab_def likelihood_variance_def fgt_def feq_def
      fsum_def fsub_def log_likeli_def sanitize_def)

text \<open>The claim as stated fails: with the variance threshold 1 and no effective
  injection the injection gate fires although the variance (here \<^verbatim>\<open>nan\<close>) does
  not exceed the threshold; the same input with ten effective injections is accepted,
  so the value of \<open>Neff\<close> alone causes the rejection.\<close>

theorem C2_neff_gates_disabled_counterexample:
  "gate_INJ ex_self_var ex_collab_zero \<and>
   \<not> fgt (likelihood_variance ex_collab_zero) (Fin 1) \<and>
   log_likelihood ex_self_var ex_collab_zero = Inr (Fin (- float_max)) \<and>
   log_likelihood ex_self_var (ex_collab_zero\<lparr>Neff := Fin 10\<rparr>) = Inr (Fin 0)"
  by (simp add: ex_self_var_def ex_collab_zero_def ex_collab_def likelihood_variance_def
      fgt_def feq_def fsum_def fsub_def log_likeli_def sanitize_def log_likelihood_def
      gate_INJ_def gate_PE_def gate_variance_def hierarchical_likelihood_init_def inf_signed_def)

text \<open>
  C3 (as amended). \<^verbatim>\<open>log_likelihood\<close> raises exactly when no gate fires and the
  combined log-likelihood is \<^verbatim>\<open>+inf\<close>. When no gate fires, a combined value of
  \<^verbatim>\<open>nan\<close> or \<^verbatim>\<open>-inf\<close> is returned as \<^verbatim>\<open>nan_to_num(-inf)\<close>, the most
  negative finite double, and every finite combined value is returned as it is.
\<close>

theorem C3_sanitized_result:
  "(log_likelihood self c = Inl ValueError \<longleftrightarrow>
      \<not> gate_INJ self c \<and> \<not> gate_PE self c \<and> \<not> gate_variance self c \<and>
      log_likeli c = PInf) \<and>
   (\<not> gate_INJ self c \<and> \<not> gate_PE self c \<and> \<not> gate_variance self c \<longrightarrow>
      (log_likeli c = NaN \<or> log_likeli c = NInf \<longrightarrow>
         log_likelihood self c = Inr (Fin (- float_max))) \<and>
      (\<forall>v. log_likeli c = Fin v \<longrightarrow> log_likelihood self c = Inr (Fin v)))"
  by (cases "log_likeli c") (auto simp add: log_likelihood_def sanitize_def feq_def)

theorem C3_sanitized_result_witness:
  "log_likelihood ex_self ex_collab = Inr (Fin 0) \<and>
   log_likelihood ex_self (ex_collab\<lparr>sum_weights := [PInf]\<rparr>) = Inl ValueError \<and>
   log_likelihood ex_self (ex_collab\<lparr>sum_weights := [Fin 0]\<rparr>) = Inr (Fin (- float_max))"
proof -
  have l1: "log_likeli ex_collab = Fin 0"
    by (simp add: log_likeli_def ex_collab_def fsum_def fsub_def)
  have l2: "log_likeli (ex_collab\<lparr>sum_weights := [PInf]\<rparr>) = PInf"
    by (simp add: log_likeli_def ex_collab_def fsum_def fsub_def)
  have l3: "log_likeli (ex_collab\<lparr>sum_weights := [Fin 0]\<rparr>) = NInf"
    by (simp add: log_likeli_def ex_collab_def fsum_def fsub_def)
  show ?thesis
    using C3_sanitized_result [of ex_self ex_collab]
      C3_sanitized_result [of ex_self "ex_collab\<lparr>sum_weights := [PInf]\<rparr>"]
      C3_sanitized_result [of ex_self "ex_collab\<lparr>sum_weights := [Fin 0]\<rparr>"]
      ex_self_gates_pass [of ex_collab]
      ex_self_gates_pass [of "ex_collab\<lparr>sum_weights := [PInf]\<rparr>"]
      ex_self_gates_pass [of "ex_collab\<lparr>sum_weights := [Fin 0]\<rparr>"]
      l1 l2 l3
    by (simp add: ex_collab_def)
qed

text \<open>The claim as stated fails twice. An event whose weights sum to zero makes the
  combined value \<^verbatim>\<open>-inf\<close>, which is not returned as it is; with a zero pseudo
  rate as well the combined value is \<^verbatim>\<open>nan\<close>, which is not mapped to
  \<^verbatim>\<open>-inf\<close>. No gate fires in either case.\<close>

theorem C3_nan_to_minus_infinity_counterexample:
  "\<not> gate_INJ ex_self (ex_collab\<lparr>sum_weights := [Fin 0]\<rparr>) \<and>
   \<not> gate_PE ex_self (ex_collab\<lparr>sum_weights := [Fin 0]\<rparr>) \<and>
   \<not> gate_variance ex_self (ex_collab\<lparr>sum_weights := [Fin 0]\<rparr>) \<and>
   log_likeli (ex_collab\<lparr>sum_weights := [Fin 0]\<rparr>) = NInf \<and>
   log_likelihood ex_self (ex_collab\<lparr>sum_weights := [Fin 0]\<rparr>) \<noteq> Inr NInf \<and>
   isnan (log_likeli (ex_collab\<lparr>sum_weights := [Fin 0], pseudo_rate := Fin 0\<rparr>)) \<and>
   log_likelihood ex_self (ex_collab\<lparr>sum_weights := [Fin 0], pseudo_rate := Fin 0\<rparr>) \<noteq>
     Inr NInf"
  by (simp add: ex_self_def hierarchical_likelihood_init_def gate_INJ_def gate_PE_def gate_variance_def feq_def
      log_likeli_def ex_collab_def fsum_def fsub_def log_likelihood_def sanitize_def
      inf_signed_def)

text \<open>
  C4. When no gate fires, the value handed to the final controls is
  \<open>sum (log sum_weights) - n_ev * log pseudo_rate\<close> for a scale-free rate model and
  \<open>- Nexp + n_ev * log Tobs + sum (log sum_weights)\<close> otherwise, in float arithmetic;
  for positive finite weights, pseudo rate and observation time and a finite expected
  number of detections, \<^verbatim>\<open>log_likelihood\<close> returns exactly that real number.
\<close>

theorem C4_combination:
  assumes "\<not> gate_INJ self c" and "\<not> gate_PE self c" and "\<not> gate_variance self c"
  shows "log_likelihood self c =
     sanitize
       (if scale_free c
        then fsub (fsum (map flog (sum_weights c)))
                  (fmul (Fin (real (n_ev c))) (flog (pseudo_rate c)))
        else fadd (fadd (fneg (Nexp c)) (fmul (Fin (real (n_ev c))) (flog (Tobs c))))
                  (fsum (map flog (sum_weights c)))) \<and>
     (sum_weights c = map Fin ws \<and> (\<forall>w \<in> set ws. 0 < w) \<and>
      pseudo_rate c = Fin pr \<and> 0 < pr \<and> Tobs c = Fin T \<and> 0 < T \<and> Nexp c = Fin N \<longrightarrow>
       log_likelihood self c =
         Inr (Fin (if scale_free c
                   then (\<Sum>w\<leftarrow>ws. ln w) - real (n_ev c) * ln pr
                   else - N + real (n_ev c) * ln T + (\<Sum>w\<leftarrow>ws. ln w))))"
proof (intro conjI impI)
  show "log_likelihood self c =
     sanitize
       (if scale_free c
        then fsub (fsum (map flog (sum_weights c)))
                  (fmul (Fin (real (n_ev c))) (flog (pseudo_rate c)))
        else fadd (fadd (fneg (Nexp c)) (fmul (Fin (real (n_ev c))) (flog (Tobs c))))
                  (fsum (map flog (sum_weights c))))"
    using assms by (simp add: log_likelihood_def log_likeli_def)
next
  assume a: "sum_weights c = map Fin ws \<and> (\<forall>w \<in> set ws. 0 < w) \<and>
      pseudo_rate c = Fin pr \<and> 0 < pr \<and> Tobs c = Fin T \<and> 0 < T \<and> Nexp c = Fin N"
  then have pos: "\<forall>w \<in> set ws. 0 < w" and sw: "sum_weights c = map Fin ws"
    by simp_all
  have s: "fsum (map flog (sum_weights c)) = Fin (\<Sum>w\<leftarrow>ws. ln w)"
    unfolding sw map_flog_pos [OF pos] by (rule fsum_map_Fin)
  show "log_likelihood self c =
         Inr (Fin (if scale_free c
                   then (\<Sum>w\<leftarrow>ws. ln w) - real (n_ev c) * ln pr
                   else - N + real (n_ev c) * ln T + (\<Sum>w\<leftarrow>ws. ln w)))"
    using assms a s by (simp add: log_likelihood_def log_likeli_def fsub_def sanitize_Fin)
qed

theorem C4_combination_witness:
  "log_likelihood ex_self ex_collab = Inr (Fin 0) \<and>
   log_likelihood ex_self (ex_collab\<lparr>scale_free := False, Tobs := Fin 2\<rparr>) =
     Inr (Fin (- 1 + ln 2))"
proof -
  have g1: "\<not> gate_INJ ex_self ex_collab \<and> \<not> gate_PE ex_self ex_collab \<and>
      \<not> gate_variance ex_self ex_collab"
    by (rule ex_self_gates_pass) (simp_all add: ex_collab_def)
  have g2: "\<not> gate_INJ ex_self (ex_collab\<lparr>scale_free := False, Tobs := Fin 2\<rparr>) \<and>
      \<not> gate_PE ex_self (ex_collab\<lparr>scale_free := False, Tobs := Fin 2\<rparr>) \<and>
      \<not> gate_variance ex_self (ex_collab\<lparr>scale_free := False, Tobs := Fin 2\<rparr>)"
    by (rule ex_self_gates_pass) (simp_all add: ex_collab_def)
  have t1: "log_likelihood ex_self ex_collab = Inr (Fin 0)"
    using g1 C4_combination [where self = ex_self and c = ex_collab and ws = "[1]"
        and pr = 1 and T = 1 and N = 1, THEN conjunct2]
    by (simp add: ex_collab_def)
  have t2: "log_likelihood ex_self (ex_collab\<lparr>scale_free := False, Tobs := Fin 2\<rparr>) =
      Inr (Fin (- 1 + ln 2))"
    using g2 C4_combination [where self = ex_self
        and c = "ex_collab\<lparr>scale_free := False, Tobs := Fin 2\<rparr>" and ws = "[1]"
        and pr = 1 and T = 2 and N = 1, THEN conjunct2]
    by (simp add: ex_collab_def)
  from t1 t2 show ?thesis by simp
qed

section \<open>The claims about the windows and the distributions\<close>

text \<open>
  C5. For a width \<open>delta \<ge> 0\<close>, every entry of the high-pass window is:
  1 when \<open>delta = 0\<close>; otherwise 0 for \<open>x \<le> mmin\<close>, 1 for \<open>x \<ge> mmin + delta\<close> and
  \<open>1 / (1 + exp (delta / (x - mmin) + delta / (x - mmin - delta)))\<close> strictly between
  the two. The result has the length of the input and no entry of it is
  \<^verbatim>\<open>nan\<close>, whatever the input holds.
\<close>

theorem C5_highpass_window:
  assumes "0 \<le> delta" and "i < length xs"
  shows "length (highpass_filter xs mmin delta) = length xs \<and>
    (delta = 0 \<longrightarrow> highpass_filter xs mmin delta ! i = Fin 1) \<and>
    (0 < delta \<longrightarrow> fle (xs ! i) (Fin mmin) \<longrightarrow> highpass_filter xs mmin delta ! i = Fin 0) \<and>
    (0 < delta \<longrightarrow> fge (xs ! i) (Fin (mmin + delta)) \<longrightarrow>
       highpass_filter xs mmin delta ! i = Fin 1) \<and>
    (\<forall>x. xs ! i = Fin x \<and> mmin < x \<and> x < mmin + delta \<longrightarrow>
       highpass_filter xs mmin delta ! i =
         Fin (1 / (1 + exp (delta / (x - mmin) + delta / (x - mmin - delta))))) \<and>
    \<not> isnan (highpass_filter xs mmin delta ! i)"
proof (cases "delta = 0")
  case True
  then show ?thesis using assms by (simp add: highpass_length highpass_nth_zero)
next
  case False
  with assms have pos: "0 < delta" by simp
  note nth = highpass_nth [OF assms(2) False, of mmin]
  have zero: "highpass_filter xs mmin delta ! i = Fin 0" if "fle (xs ! i) (Fin mmin)"
    using that pos unfolding nth
    by (cases "xs ! i") (auto simp add: fge_def fle_def feq_def)
  have one: "highpass_filter xs mmin delta ! i = Fin 1" if "fge (xs ! i) (Fin (mmin + delta))"
    using that unfolding nth by (simp add: add.commute)
  have win: "highpass_filter xs mmin delta ! i =
         Fin (1 / (1 + exp (delta / (x - mmin) + delta / (x - mmin - delta))))"
    if "xs ! i = Fin x \<and> mmin < x \<and> x < mmin + delta" for x
  proof -
    from that have x: "xs ! i = Fin x" "mmin < x" "x < mmin + delta" by simp_all
    have "highpass_filter xs mmin delta ! i = fdiv (Fin 1)
             (fadd (fexp (nan_to_num
                      (fadd (fdiv (Fin delta) (fsub (Fin x) (Fin mmin)))
                            (fdiv (Fin delta) (fsub (fsub (Fin x) (Fin mmin)) (Fin delta))))))
                   (Fin 1))"
      unfolding nth using x by (simp add: fge_def fle_def feq_def fgt_def add.commute)
    then show ?thesis using window_value [OF x(2,3)] by simp
  qed
  have nonan: "\<not> isnan (highpass_filter xs mmin delta ! i)"
  proof (cases "xs ! i")
    case (Fin x)
    consider "x \<le> mmin" | "mmin + delta \<le> x" | "mmin < x \<and> x < mmin + delta" by linarith
    then show ?thesis
    proof cases
      case 1
      then have "fle (xs ! i) (Fin mmin)" using Fin by (auto simp add: fle_def feq_def)
      then show ?thesis using zero by simp
    next
      case 2
      then have "fge (xs ! i) (Fin (mmin + delta))"
        using Fin by (auto simp add: fge_def fle_def feq_def)
      then show ?thesis using one by simp
    next
      case 3
      then show ?thesis using win [of x] Fin by simp
    qed
  next
    case PInf
    then show ?thesis unfolding nth by (simp add: fge_def fle_def feq_def fgt_def)
  next
    case NInf
    then show ?thesis unfolding nth by (simp add: fge_def fle_def feq_def fgt_def)
  next
    case NaN
    then show ?thesis unfolding nth by (simp add: fge_def fle_def feq_def fgt_def)
  qed
  show ?thesis using zero one win nonan pos by (simp add: highpass_length)
qed

theorem C5_highpass_window_witness:
  "highpass_filter [Fin 5, Fin 6, Fin 7, NaN] 5 2 ! 0 = Fin 0 \<and>
   highpass_filter [Fin 5, Fin 6, Fin 7, NaN] 5 2 ! 1 = Fin (1 / 2) \<and>
   highpass_filter [Fin 5, Fin 6, Fin 7, NaN] 5 2 ! 2 = Fin 1 \<and>
   \<not> isnan (highpass_filter [Fin 5, Fin 6, Fin 7, NaN] 5 2 ! 3) \<and>
   highpass_filter [Fin 5, Fin 6, Fin 7, NaN] 5 0 ! 0 = Fin 1"
  using C5_highpass_window [of 2 0 "[Fin 5, Fin 6, Fin 7, NaN]" 5]
    C5_highpass_window [of 2 1 "[Fin 5, Fin 6, Fin 7, NaN]" 5]
    C5_highpass_window [of 2 2 "[Fin 5, Fin 6, Fin 7, NaN]" 5]
    C5_highpass_window [of 2 3 "[Fin 5, Fin 6, Fin 7, NaN]" 5]
    C5_highpass_window [of 0 0 "[Fin 5, Fin 6, Fin 7, NaN]" 5]
  by (simp add: fle_def fge_def feq_def)

text \<open>
  C6. For a smoothing width \<open>s \<ge> 0\<close> and a base distribution \<open>p\<close>: the constructor
  integrates over the grid of 1000 equally spaced points from \<open>minval\<close> to
  \<open>minval + s\<close>, with numpy's trapezoid rule, the pdf of \<open>p\<close> and the pdf of \<open>p\<close> times
  the high-pass window, and sets \<open>norm = 1 - integral_before + integral_now\<close>; where
  the pdf of \<open>p\<close> is finite on the grid the three are the real numbers of the trapezoid
  rule. Inside the bounds the log pdf is that of \<open>p\<close> plus the log of the window minus
  \<open>log norm\<close>, so that for a positive \<open>norm\<close> the pdf is the pdf of \<open>p\<close> times the
  window, divided by \<open>norm\<close>. The table of the numeric cdf is the cumulative sum of the
  smoothed pdf at the 999 midpoints of the grid, times the widths. \<^verbatim>\<open>_log_cdf\<close> is
  the log of: 0 below \<open>minval\<close>; the table interpolated at \<open>x\<close> from \<open>minval\<close> up to the
  window edge; \<open>(integral_now + p.cdf(x) - p.cdf(minval + s)) / norm\<close> from the window
  edge on. Inside the bounds \<^verbatim>\<open>log_cdf\<close> returns the value of \<^verbatim>\<open>_log_cdf\<close>.

  The grid, the midpoints, the table and the interpolation are these: grid point \<open>j\<close> is
  \<open>minval + j * (s / 999)\<close>; midpoint \<open>j\<close> is half the sum of the grid points \<open>j\<close> and
  \<open>j + 1\<close>; entry \<open>k\<close> of the table is the sum of the smoothed pdf at the midpoints
  \<open>0, \<dots>, k\<close>, times the width of the grid cell \<open>k\<close>; and inside the window the value
  interpolated at \<open>x\<close> is the first entry of the table left of the first midpoint, the
  last entry from the last midpoint on, the entry \<open>k\<close> at the midpoint \<open>k\<close>, and between
  the midpoints \<open>k\<close> and \<open>k + 1\<close>, where the two entries of the table are finite, the
  chord \<open>(T[k+1] - T[k]) / (m[k+1] - m[k]) * (x - m[k]) + T[k]\<close>.
\<close>

theorem C6_lowpass_smoothed:
  assumes "0 \<le> s"
  shows
   "length (LSP_int_array p s) = 1000 \<and>
    LSP_int_array p s ! 0 = minval p \<and> LSP_int_array p s ! 999 = minval p + s \<and>
    LSP_integral_before p s =
      trapz (pdf p (map Fin (LSP_int_array p s))) (LSP_int_array p s) \<and>
    LSP_integral_now p s =
      trapz (map2 fmul (pdf p (map Fin (LSP_int_array p s)))
                       (highpass_filter (map Fin (LSP_int_array p s)) (minval p) s))
            (LSP_int_array p s) \<and>
    LSP_norm p s = fadd (fsub (Fin 1) (LSP_integral_before p s)) (LSP_integral_now p s) \<and>
    (\<forall>ys. pdf p (map Fin (LSP_int_array p s)) = map Fin ys \<longrightarrow>
       (\<exists>ws. highpass_filter (map Fin (LSP_int_array p s)) (minval p) s = map Fin ws \<and>
          (\<forall>w \<in> set ws. 0 \<le> w \<and> w \<le> 1) \<and>
          LSP_integral_before p s = Fin (trapezoid_rule (LSP_int_array p s) ys) \<and>
          LSP_integral_now p s =
            Fin (trapezoid_rule (LSP_int_array p s) (map2 (*) ys ws)) \<and>
          LSP_norm p s =
            Fin (1 - trapezoid_rule (LSP_int_array p s) ys +
                 trapezoid_rule (LSP_int_array p s) (map2 (*) ys ws)))) \<and>
    (\<forall>v. \<not> flt v (Fin (minval p)) \<and> \<not> fgt v (Fin (maxval p)) \<longrightarrow>
       log_pdf (LowpassSmoothedProb p s) [v] ! 0 =
         fsub (fadd (log_pdf p [v] ! 0) (flog (highpass_filter [v] (minval p) s ! 0)))
              (flog (LSP_norm p s))) \<and>
    (\<forall>v n q. minval p \<le> v \<and> v \<le> maxval p \<and> LSP_norm p s = Fin n \<and> 0 < n \<and>
        pdf p [Fin v] ! 0 = Fin q \<longrightarrow>
       (\<exists>w. highpass_filter [Fin v] (minval p) s ! 0 = Fin w \<and>
            pdf (LowpassSmoothedProb p s) [Fin v] ! 0 = Fin (q * w / n))) \<and>
    LSP_cdf_numeric p s =
      map2 (\<lambda>c d. fmul c (Fin d))
        (cumsum (pdf (LowpassSmoothedProb p s) (map Fin (midpoints (LSP_int_array p s)))))
        (np_diff (LSP_int_array p s)) \<and>
    (\<forall>v. flt v (Fin (minval p)) \<longrightarrow>
       sub_log_cdf (LowpassSmoothedProb p s) v = flog (Fin 0)) \<and>
    (\<forall>v. fge v (Fin (minval p)) \<and> flt v (Fin (minval p + s)) \<longrightarrow>
       sub_log_cdf (LowpassSmoothedProb p s) v =
         flog (interp v (midpoints (LSP_int_array p s)) (LSP_cdf_numeric p s))) \<and>
    (\<forall>v. fge v (Fin (minval p + s)) \<longrightarrow>
       sub_log_cdf (LowpassSmoothedProb p s) v =
         flog (fdiv (fsub (fadd (LSP_integral_now p s) (cdf p [v] ! 0))
                          (cdf p [Fin (minval p + s)] ! 0))
                    (LSP_norm p s))) \<and>
    (\<forall>v. \<not> flt v (Fin (minval p)) \<and> \<not> fgt v (Fin (maxval p)) \<longrightarrow>
       log_cdf (LowpassSmoothedProb p s) [v] ! 0 = sub_log_cdf (LowpassSmoothedProb p s) v) \<and>
    (\<forall>j<1000. LSP_int_array p s ! j = minval p + real j * (s / 999)) \<and>
    length (midpoints (LSP_int_array p s)) = 999 \<and>
    (\<forall>j<999. midpoints (LSP_int_array p s) ! j =
       (LSP_int_array p s ! j + LSP_int_array p s ! Suc j) * (1 / 2)) \<and>
    length (LSP_cdf_numeric p s) = 999 \<and>
    (\<forall>k<999. LSP_cdf_numeric p s ! k =
       fmul (fsum (map (\<lambda>j. pdf (LowpassSmoothedProb p s)
                         [Fin ((LSP_int_array p s ! j + LSP_int_array p s ! Suc j) * (1 / 2))] ! 0)
                    [0..<Suc k]))
            (Fin (LSP_int_array p s ! Suc k - LSP_int_array p s ! k))) \<and>
    (\<forall>x. minval p \<le> x \<and> x < minval p + s \<and> x < midpoints (LSP_int_array p s) ! 0 \<longrightarrow>
       sub_log_cdf (LowpassSmoothedProb p s) (Fin x) = flog (LSP_cdf_numeric p s ! 0)) \<and>
    (\<forall>k. k < 998 \<and> midpoints (LSP_int_array p s) ! k < minval p + s \<longrightarrow>
       sub_log_cdf (LowpassSmoothedProb p s) (Fin (midpoints (LSP_int_array p s) ! k)) =
         flog (LSP_cdf_numeric p s ! k)) \<and>
    (\<forall>x k t0 t1. k < 998 \<and> x < minval p + s \<and> midpoints (LSP_int_array p s) ! k \<le> x \<and>
        x < midpoints (LSP_int_array p s) ! Suc k \<and>
        LSP_cdf_numeric p s ! k = Fin t0 \<and> LSP_cdf_numeric p s ! Suc k = Fin t1 \<longrightarrow>
       sub_log_cdf (LowpassSmoothedProb p s) (Fin x) =
         flog (Fin ((t1 - t0) /
                    (midpoints (LSP_int_array p s) ! Suc k - midpoints (LSP_int_array p s) ! k) *
                    (x - midpoints (LSP_int_array p s) ! k) + t0))) \<and>
    (\<forall>x. x < minval p + s \<and> midpoints (LSP_int_array p s) ! 998 \<le> x \<longrightarrow>
       sub_log_cdf (LowpassSmoothedProb p s) (Fin x) = flog (LSP_cdf_numeric p s ! 998))"
proof -
  have grid: "length (LSP_int_array p s) = 1000 \<and>
      LSP_int_array p s ! 0 = minval p \<and> LSP_int_array p s ! 999 = minval p + s"
    by (simp add: LSP_int_array_def linspace_length linspace_ends)
  have ints: "\<exists>ws. highpass_filter (map Fin (LSP_int_array p s)) (minval p) s = map Fin ws \<and>
          (\<forall>w \<in> set ws. 0 \<le> w \<and> w \<le> 1) \<and>
          LSP_integral_before p s = Fin (trapezoid_rule (LSP_int_array p s) ys) \<and>
          LSP_integral_now p s =
            Fin (trapezoid_rule (LSP_int_array p s) (map2 (*) ys ws)) \<and>
          LSP_norm p s =
            Fin (1 - trapezoid_rule (LSP_int_array p s) ys +
                 trapezoid_rule (LSP_int_array p s) (map2 (*) ys ws))"
    if "pdf p (map Fin (LSP_int_array p s)) = map Fin ys" for ys
    using that by (rule LSP_integrals_Fin)
  have lpdf: "log_pdf (LowpassSmoothedProb p s) [v] ! 0 =
         fsub (fadd (log_pdf p [v] ! 0) (flog (highpass_filter [v] (minval p) s ! 0)))
              (flog (LSP_norm p s))"
    if "\<not> flt v (Fin (minval p)) \<and> \<not> fgt v (Fin (maxval p))" for v
    using that by (simp add: log_pdf_single LowpassSmoothedProb_fields LSP_log_pdf_def Let_def)
  have pdfv: "\<exists>w. highpass_filter [Fin v] (minval p) s ! 0 = Fin w \<and>
            pdf (LowpassSmoothedProb p s) [Fin v] ! 0 = Fin (q * w / n)"
    if "minval p \<le> v \<and> v \<le> maxval p \<and> LSP_norm p s = Fin n \<and> 0 < n \<and>
        pdf p [Fin v] ! 0 = Fin q" for v n q
  proof -
    obtain w where w: "highpass_filter [Fin v] (minval p) s ! 0 = Fin w" "0 \<le> w"
      using highpass_range [of 0 "[Fin v]" "minval p" s] by auto
    with that smoothed_pdf_value [of p v s n q w] show ?thesis by simp
  qed
  have table: "LSP_cdf_numeric p s =
      map2 (\<lambda>c d. fmul c (Fin d))
        (cumsum (pdf (LowpassSmoothedProb p s) (map Fin (midpoints (LSP_int_array p s)))))
        (np_diff (LSP_int_array p s))"
    by (simp add: LSP_cdf_numeric_def LSP_x_eval_def LSP_int_array_def pdf_under_construction)
  have below: "sub_log_cdf (LowpassSmoothedProb p s) v = flog (Fin 0)"
    if "flt v (Fin (minval p))" for v
    using that assms
    by (cases v) (auto simp add: LowpassSmoothedProb_fields LSP_log_cdf_def Let_def
        fge_def fle_def feq_def)
  have inside: "sub_log_cdf (LowpassSmoothedProb p s) v =
         flog (interp v (midpoints (LSP_int_array p s)) (LSP_cdf_numeric p s))"
    if "fge v (Fin (minval p)) \<and> flt v (Fin (minval p + s))" for v
    using that
    by (cases v) (auto simp add: LowpassSmoothedProb_fields LSP_log_cdf_def Let_def
        fge_def fle_def feq_def LSP_x_eval_def LSP_int_array_def)
  have above: "sub_log_cdf (LowpassSmoothedProb p s) v =
         flog (fdiv (fsub (fadd (LSP_integral_now p s) (cdf p [v] ! 0))
                          (cdf p [Fin (minval p + s)] ! 0))
                    (LSP_norm p s))"
    if "fge v (Fin (minval p + s))" for v
    using that by (simp add: LowpassSmoothedProb_fields LSP_log_cdf_def Let_def)
  have pub: "log_cdf (LowpassSmoothedProb p s) [v] ! 0 = sub_log_cdf (LowpassSmoothedProb p s) v"
    if "\<not> flt v (Fin (minval p)) \<and> \<not> fgt v (Fin (maxval p))" for v
    using that
    by (simp add: log_cdf_def check_bound_cdf_def mask_assign_def LowpassSmoothedProb_fields)
  have defs: "LSP_integral_before p s =
      trapz (pdf p (map Fin (LSP_int_array p s))) (LSP_int_array p s) \<and>
    LSP_integral_now p s =
      trapz (map2 fmul (pdf p (map Fin (LSP_int_array p s)))
                       (highpass_filter (map Fin (LSP_int_array p s)) (minval p) s))
            (LSP_int_array p s) \<and>
    LSP_norm p s = fadd (fsub (Fin 1) (LSP_integral_before p s)) (LSP_integral_now p s)"
    by (simp add: LSP_integral_before_def LSP_integral_now_def LSP_norm_def)
  let ?M = "midpoints (LSP_int_array p s)"
  let ?T = "LSP_cdf_numeric p s"
  have mnth: "?M ! j = (LSP_int_array p s ! j + LSP_int_array p s ! Suc j) * (1 / 2)"
    if "j < 999" for j
    using that by (intro midpoints_nth) (simp add: grid)
  have mlow: "minval p \<le> ?M ! j" if "j < 999" for j
  proof -
    have "0 \<le> (real j + 1 / 2) * (s / 999)" using assms by simp
    then show ?thesis using that by (simp add: grid_midpoints_nth)
  qed
  have window: "sub_log_cdf (LowpassSmoothedProb p s) (Fin x) = flog (interp (Fin x) ?M ?T)"
    if "minval p \<le> x" "x < minval p + s" for x
  proof -
    have "fge (Fin x) (Fin (minval p)) \<and> flt (Fin x) (Fin (minval p + s))"
      using that by (auto simp add: fge_def fle_def feq_def)
    then show ?thesis by (rule inside)
  qed
  have ne: "?M \<noteq> []" "?T \<noteq> []"
    using grid_midpoints_length [of p s] table_length [of p s] by auto
  have len: "length ?T = length ?M" by (simp add: grid_midpoints_length table_length)
  have left: "sub_log_cdf (LowpassSmoothedProb p s) (Fin x) = flog (?T ! 0)"
    if "minval p \<le> x \<and> x < minval p + s \<and> x < ?M ! 0" for x
    using that window [of x] interp_left [OF ne, of x] by simp
  have between: "sub_log_cdf (LowpassSmoothedProb p s) (Fin x) =
         flog (if x = ?M ! k then ?T ! k else chord (?M ! k) (?M ! Suc k) (?T ! k) (?T ! Suc k) x)"
      and incr: "?M ! k < ?M ! Suc k"
    if "k < 998" "x < minval p + s" "?M ! k \<le> x" "x < ?M ! Suc k" for x k
  proof -
    have lo: "minval p \<le> x" using mlow [of k] that(1,3) by simp
    then have "0 < s" using that(2) by simp
    then have srt: "sorted_wrt (<) ?M" by (rule grid_midpoints_sorted)
    have "Suc k < length ?M" using that(1) by (simp add: grid_midpoints_length)
    from interp_chord [OF this len srt that(3,4)] window [OF lo that(2)]
    show "sub_log_cdf (LowpassSmoothedProb p s) (Fin x) =
         flog (if x = ?M ! k then ?T ! k else chord (?M ! k) (?M ! Suc k) (?T ! k) (?T ! Suc k) x)"
      by simp
    show "?M ! k < ?M ! Suc k" using that(3,4) by simp
  qed
  have hit: "sub_log_cdf (LowpassSmoothedProb p s) (Fin (?M ! k)) = flog (?T ! k)"
    if "k < 998 \<and> ?M ! k < minval p + s" for k
  proof -
    from that have k: "k < 998" and x: "?M ! k < minval p + s" by simp_all
    have "minval p \<le> ?M ! k" using mlow [of k] k by simp
    then have "0 < s" using x by simp
    then have "?M ! k < ?M ! Suc k"
      using k grid_midpoints_nth [of k p s] grid_midpoints_nth [of "Suc k" p s] by simp
    from between [OF k x _ this] show ?thesis by simp
  qed
  have chord: "sub_log_cdf (LowpassSmoothedProb p s) (Fin x) =
         flog (Fin ((t1 - t0) / (?M ! Suc k - ?M ! k) * (x - ?M ! k) + t0))"
    if "k < 998 \<and> x < minval p + s \<and> ?M ! k \<le> x \<and> x < ?M ! Suc k \<and>
        ?T ! k = Fin t0 \<and> ?T ! Suc k = Fin t1" for x k t0 t1
  proof -
    from that have k: "k < 998" and x: "x < minval p + s" "?M ! k \<le> x" "x < ?M ! Suc k"
      and t: "?T ! k = Fin t0" "?T ! Suc k = Fin t1"
      by simp_all
    have ne: "?M ! k \<noteq> ?M ! Suc k" using incr [OF k x] by simp
    show ?thesis
      unfolding between [OF k x] t chord_Fin [OF ne] by simp
  qed
  have right: "sub_log_cdf (LowpassSmoothedProb p s) (Fin x) = flog (?T ! 998)"
    if "x < minval p + s \<and> ?M ! 998 \<le> x" for x
  proof -
    from that have x: "x < minval p + s" "?M ! 998 \<le> x" by simp_all
    have lo: "minval p \<le> x" using mlow [of 998] x(2) by simp
    then have "0 < s" using x(1) by simp
    then have srt: "sorted_wrt (<) ?M" by (rule grid_midpoints_sorted)
    have "?M ! (length ?M - 1) \<le> x" using x(2) by (simp add: grid_midpoints_length)
    from interp_right [OF ne(1) len srt this] window [OF lo x(1)] show ?thesis
      by (simp add: grid_midpoints_length)
  qed
  show ?thesis
    by (intro conjI allI impI grid [THEN conjunct1] grid [THEN conjunct2, THEN conjunct1]
        grid [THEN conjunct2, THEN conjunct2] defs [THEN conjunct1]
        defs [THEN conjunct2, THEN conjunct1] defs [THEN conjunct2, THEN conjunct2]
        ints lpdf pdfv table below inside above pub grid_nth grid_midpoints_length mnth
        table_length table_nth left hit chord right) simp_all
qed

theorem C6_lowpass_smoothed_witness:
  "(\<exists>ws. LSP_integral_before ex_origin 1 =
          Fin (trapezoid_rule (LSP_int_array ex_origin 1)
                 (map (\<lambda>v. 1 / 2) (LSP_int_array ex_origin 1))) \<and>
         LSP_integral_now ex_origin 1 =
          Fin (trapezoid_rule (LSP_int_array ex_origin 1)
                 (map2 (*) (map (\<lambda>v. 1 / 2) (LSP_int_array ex_origin 1)) ws))) \<and>
   (\<exists>n w. 0 < n \<and> LSP_norm ex_origin 1 = Fin n \<and>
      highpass_filter [Fin (3 / 2)] (minval ex_origin) 1 ! 0 = Fin w \<and>
      pdf (LowpassSmoothedProb ex_origin 1) [Fin (3 / 2)] ! 0 = Fin (1 / 2 * w / n)) \<and>
   sub_log_cdf (LowpassSmoothedProb ex_origin 1) (Fin 0) = NInf \<and>
   log_cdf (LowpassSmoothedProb ex_origin 1) [Fin (3 / 2)] ! 0 =
     flog (interp (Fin (3 / 2)) (midpoints (LSP_int_array ex_origin 1))
             (LSP_cdf_numeric ex_origin 1)) \<and>
   sub_log_cdf (LowpassSmoothedProb ex_origin 1) (Fin (5 / 2)) =
     flog (fdiv (fsub (fadd (LSP_integral_now ex_origin 1) (cdf ex_origin [Fin (5 / 2)] ! 0))
                      (cdf ex_origin [Fin 2] ! 0))
                (LSP_norm ex_origin 1)) \<and>
   LSP_cdf_numeric ex_origin 1 ! 0 =
     fmul (fsum [pdf (LowpassSmoothedProb ex_origin 1) [Fin (1999 / 1998)] ! 0])
          (Fin (1 / 999)) \<and>
   LSP_cdf_numeric ex_origin 1 ! 1 =
     fmul (fsum [pdf (LowpassSmoothedProb ex_origin 1) [Fin (1999 / 1998)] ! 0,
                 pdf (LowpassSmoothedProb ex_origin 1) [Fin (2001 / 1998)] ! 0])
          (Fin (1 / 999)) \<and>
   sub_log_cdf (LowpassSmoothedProb ex_origin 1) (Fin 1) =
     flog (LSP_cdf_numeric ex_origin 1 ! 0) \<and>
   (\<exists>t0 t1. LSP_cdf_numeric ex_origin 1 ! 0 = Fin t0 \<and>
      LSP_cdf_numeric ex_origin 1 ! 1 = Fin t1 \<and>
      sub_log_cdf (LowpassSmoothedProb ex_origin 1) (Fin (1000 / 999)) =
        flog (Fin ((t1 - t0) / (1 / 999) * (1 / 1998) + t0))) \<and>
   sub_log_cdf (LowpassSmoothedProb ex_origin 1) (Fin (3 / 2)) =
     flog (LSP_cdf_numeric ex_origin 1 ! 499)"
proof -
  obtain n where n: "LSP_norm ex_origin 1 = Fin n" "0 < n"
    using ex_origin_norm by auto
  have q: "pdf ex_origin [Fin (3 / 2)] ! 0 = Fin (1 / 2)"
    using ex_origin_pdf [of "3 / 2"] by (simp add: pdf_map)
  have mm: "minval ex_origin = 1" "maxval ex_origin = 3"
    by (simp_all add: ex_origin_def PowerLaw_fields)
  have g: "pdf ex_origin (map Fin (LSP_int_array ex_origin 1)) =
      map Fin (map (\<lambda>v. 1 / 2) (LSP_int_array ex_origin 1))"
    unfolding ex_origin_grid_pdf
    by (simp add: map_replicate_const LSP_int_array_def linspace_length)
  have "(0::real) \<le> 1" by simp
  note t = C6_lowpass_smoothed [OF this, where p = ex_origin]
  from t have it: "\<forall>ys. pdf ex_origin (map Fin (LSP_int_array ex_origin 1)) = map Fin ys \<longrightarrow>
       (\<exists>ws. highpass_filter (map Fin (LSP_int_array ex_origin 1)) (minval ex_origin) 1 =
              map Fin ws \<and>
          (\<forall>w \<in> set ws. 0 \<le> w \<and> w \<le> 1) \<and>
          LSP_integral_before ex_origin 1 = Fin (trapezoid_rule (LSP_int_array ex_origin 1) ys) \<and>
          LSP_integral_now ex_origin 1 =
            Fin (trapezoid_rule (LSP_int_array ex_origin 1) (map2 (*) ys ws)) \<and>
          LSP_norm ex_origin 1 =
            Fin (1 - trapezoid_rule (LSP_int_array ex_origin 1) ys +
                 trapezoid_rule (LSP_int_array ex_origin 1) (map2 (*) ys ws)))"
    by (elim conjE) assumption
  with g have zero: "\<exists>ws. LSP_integral_before ex_origin 1 =
          Fin (trapezoid_rule (LSP_int_array ex_origin 1)
                 (map (\<lambda>v. 1 / 2) (LSP_int_array ex_origin 1))) \<and>
         LSP_integral_now ex_origin 1 =
          Fin (trapezoid_rule (LSP_int_array ex_origin 1)
                 (map2 (*) (map (\<lambda>v. 1 / 2) (LSP_int_array ex_origin 1)) ws))"
    by blast
  from t have pd: "\<forall>v n q. minval ex_origin \<le> v \<and> v \<le> maxval ex_origin \<and>
        LSP_norm ex_origin 1 = Fin n \<and> 0 < n \<and> pdf ex_origin [Fin v] ! 0 = Fin q \<longrightarrow>
       (\<exists>w. highpass_filter [Fin v] (minval ex_origin) 1 ! 0 = Fin w \<and>
            pdf (LowpassSmoothedProb ex_origin 1) [Fin v] ! 0 = Fin (q * w / n))"
    by (elim conjE) assumption
  have "minval ex_origin \<le> 3 / 2 \<and> 3 / 2 \<le> maxval ex_origin \<and>
        LSP_norm ex_origin 1 = Fin n \<and> 0 < n \<and> pdf ex_origin [Fin (3 / 2)] ! 0 = Fin (1 / 2)"
    using n q mm by simp
  with pd obtain w where
    "highpass_filter [Fin (3 / 2)] (minval ex_origin) 1 ! 0 = Fin w"
    "pdf (LowpassSmoothedProb ex_origin 1) [Fin (3 / 2)] ! 0 = Fin (1 / 2 * w / n)"
    by blast
  with n have first: "\<exists>n w. 0 < n \<and> LSP_norm ex_origin 1 = Fin n \<and>
      highpass_filter [Fin (3 / 2)] (minval ex_origin) 1 ! 0 = Fin w \<and>
      pdf (LowpassSmoothedProb ex_origin 1) [Fin (3 / 2)] ! 0 = Fin (1 / 2 * w / n)"
    by blast
  from t have b: "\<forall>v. flt v (Fin (minval ex_origin)) \<longrightarrow>
       sub_log_cdf (LowpassSmoothedProb ex_origin 1) v = flog (Fin 0)"
    by (elim conjE) assumption
  have c1: "sub_log_cdf (LowpassSmoothedProb ex_origin 1) (Fin 0) = NInf"
    using b mm by simp
  from t have i: "\<forall>v. fge v (Fin (minval ex_origin)) \<and> flt v (Fin (minval ex_origin + 1)) \<longrightarrow>
       sub_log_cdf (LowpassSmoothedProb ex_origin 1) v =
         flog (interp v (midpoints (LSP_int_array ex_origin 1)) (LSP_cdf_numeric ex_origin 1))"
    by (elim conjE) assumption
  from t have pu: "\<forall>v. \<not> flt v (Fin (minval ex_origin)) \<and> \<not> fgt v (Fin (maxval ex_origin)) \<longrightarrow>
       log_cdf (LowpassSmoothedProb ex_origin 1) [v] ! 0 =
       sub_log_cdf (LowpassSmoothedProb ex_origin 1) v"
    by (elim conjE) assumption
  have c2: "log_cdf (LowpassSmoothedProb ex_origin 1) [Fin (3 / 2)] ! 0 =
     flog (interp (Fin (3 / 2)) (midpoints (LSP_int_array ex_origin 1))
             (LSP_cdf_numeric ex_origin 1))"
    using i pu mm by (simp add: fge_def fle_def feq_def fgt_def)
  from t have a: "\<forall>v. fge v (Fin (minval ex_origin + 1)) \<longrightarrow>
       sub_log_cdf (LowpassSmoothedProb ex_origin 1) v =
         flog (fdiv (fsub (fadd (LSP_integral_now ex_origin 1) (cdf ex_origin [v] ! 0))
                          (cdf ex_origin [Fin (minval ex_origin + 1)] ! 0))
                    (LSP_norm ex_origin 1))"
    by (elim conjE) assumption
  have c3: "sub_log_cdf (LowpassSmoothedProb ex_origin 1) (Fin (5 / 2)) =
     flog (fdiv (fsub (fadd (LSP_integral_now ex_origin 1) (cdf ex_origin [Fin (5 / 2)] ! 0))
                      (cdf ex_origin [Fin 2] ! 0))
                (LSP_norm ex_origin 1))"
    using a mm by (simp add: fge_def fle_def feq_def)
  from t have gj: "\<forall>j<1000. LSP_int_array ex_origin 1 ! j =
       minval ex_origin + real j * (1 / 999)"
    by (elim conjE) assumption
  from t have mj: "\<forall>j<999. midpoints (LSP_int_array ex_origin 1) ! j =
       (LSP_int_array ex_origin 1 ! j + LSP_int_array ex_origin 1 ! Suc j) * (1 / 2)"
    by (elim conjE) assumption
  from t have tk: "\<forall>k<999. LSP_cdf_numeric ex_origin 1 ! k =
       fmul (fsum (map (\<lambda>j. pdf (LowpassSmoothedProb ex_origin 1)
                         [Fin ((LSP_int_array ex_origin 1 ! j +
                                LSP_int_array ex_origin 1 ! Suc j) * (1 / 2))] ! 0)
                    [0..<Suc k]))
            (Fin (LSP_int_array ex_origin 1 ! Suc k - LSP_int_array ex_origin 1 ! k))"
    by (elim conjE) assumption
  from t have lf: "\<forall>x. minval ex_origin \<le> x \<and> x < minval ex_origin + 1 \<and>
        x < midpoints (LSP_int_array ex_origin 1) ! 0 \<longrightarrow>
       sub_log_cdf (LowpassSmoothedProb ex_origin 1) (Fin x) =
         flog (LSP_cdf_numeric ex_origin 1 ! 0)"
    by (elim conjE) assumption
  from t have ht: "\<forall>k. k < 998 \<and>
        midpoints (LSP_int_array ex_origin 1) ! k < minval ex_origin + 1 \<longrightarrow>
       sub_log_cdf (LowpassSmoothedProb ex_origin 1)
           (Fin (midpoints (LSP_int_array ex_origin 1) ! k)) =
         flog (LSP_cdf_numeric ex_origin 1 ! k)"
    by (elim conjE) assumption
  from t have ch: "\<forall>x k t0 t1. k < 998 \<and> x < minval ex_origin + 1 \<and>
        midpoints (LSP_int_array ex_origin 1) ! k \<le> x \<and>
        x < midpoints (LSP_int_array ex_origin 1) ! Suc k \<and>
        LSP_cdf_numeric ex_origin 1 ! k = Fin t0 \<and>
        LSP_cdf_numeric ex_origin 1 ! Suc k = Fin t1 \<longrightarrow>
       sub_log_cdf (LowpassSmoothedProb ex_origin 1) (Fin x) =
         flog (Fin ((t1 - t0) /
                    (midpoints (LSP_int_array ex_origin 1) ! Suc k -
                     midpoints (LSP_int_array ex_origin 1) ! k) *
                    (x - midpoints (LSP_int_array ex_origin 1) ! k) + t0))"
    by (elim conjE) assumption
  have g: "LSP_int_array ex_origin 1 ! 0 = 1" "LSP_int_array ex_origin 1 ! Suc 0 = 1000 / 999"
      "LSP_int_array ex_origin 1 ! Suc (Suc 0) = 1001 / 999"
      "LSP_int_array ex_origin 1 ! 499 = 1498 / 999"
      "LSP_int_array ex_origin 1 ! 500 = 1499 / 999" "LSP_int_array ex_origin 1 ! 501 = 1500 / 999"
    using gj [rule_format, of 0] gj [rule_format, of 1] gj [rule_format, of "Suc (Suc 0)"]
      gj [rule_format, of 499] gj [rule_format, of 500] gj [rule_format, of 501] mm
    by simp_all
  have m: "midpoints (LSP_int_array ex_origin 1) ! 0 = 1999 / 1998"
      "midpoints (LSP_int_array ex_origin 1) ! Suc 0 = 2001 / 1998"
      "midpoints (LSP_int_array ex_origin 1) ! 499 = 3 / 2"
      "midpoints (LSP_int_array ex_origin 1) ! 500 = 2999 / 1998"
    using mj [rule_format, of 0] mj [rule_format, of 1] mj [rule_format, of 499]
      mj [rule_format, of 500]
    by (simp_all add: g)
  have u: "[0..<2] = [0, 1]" by (simp add: upt_rec)
  have c4: "LSP_cdf_numeric ex_origin 1 ! 0 =
     fmul (fsum [pdf (LowpassSmoothedProb ex_origin 1) [Fin (1999 / 1998)] ! 0])
          (Fin (1 / 999))"
    using tk [rule_format, of 0] by (simp add: g)
  have c5: "LSP_cdf_numeric ex_origin 1 ! 1 =
     fmul (fsum [pdf (LowpassSmoothedProb ex_origin 1) [Fin (1999 / 1998)] ! 0,
                 pdf (LowpassSmoothedProb ex_origin 1) [Fin (2001 / 1998)] ! 0])
          (Fin (1 / 999))"
    using tk [rule_format, of 1] by (simp add: g u)
  have c6: "sub_log_cdf (LowpassSmoothedProb ex_origin 1) (Fin 1) =
     flog (LSP_cdf_numeric ex_origin 1 ! 0)"
    using lf [rule_format, of 1] by (simp add: mm m)
  have fin: "\<exists>r. pdf (LowpassSmoothedProb ex_origin 1) [Fin v] ! 0 = Fin r"
    if "1 \<le> v" "v \<le> 3" for v
  proof -
    have "pdf ex_origin [Fin v] ! 0 = Fin (1 / 2)"
      using ex_origin_pdf [OF that] by (simp add: pdf_map)
    then have "minval ex_origin \<le> v \<and> v \<le> maxval ex_origin \<and>
        LSP_norm ex_origin 1 = Fin n \<and> 0 < n \<and> pdf ex_origin [Fin v] ! 0 = Fin (1 / 2)"
      using that n mm by simp
    with pd show ?thesis by blast
  qed
  obtain r0 where r0: "pdf (LowpassSmoothedProb ex_origin 1) [Fin (1999 / 1998)] ! 0 = Fin r0"
    using fin [of "1999 / 1998"] by auto
  obtain r1 where r1: "pdf (LowpassSmoothedProb ex_origin 1) [Fin (2001 / 1998)] ! 0 = Fin r1"
    using fin [of "2001 / 1998"] by auto
  have t0: "LSP_cdf_numeric ex_origin 1 ! 0 = Fin (r0 * (1 / 999))"
    unfolding c4 r0 by (simp add: fsum_def)
  have t1: "LSP_cdf_numeric ex_origin 1 ! Suc 0 = Fin ((r0 + r1) * (1 / 999))"
    using c5 unfolding r0 r1 by (simp add: fsum_def)
  have "sub_log_cdf (LowpassSmoothedProb ex_origin 1) (Fin (1000 / 999)) =
     flog (Fin (((r0 + r1) * (1 / 999) - r0 * (1 / 999)) / (1 / 999) * (1 / 1998) +
                r0 * (1 / 999)))"
    using ch [rule_format, of 0 "1000 / 999" "r0 * (1 / 999)" "(r0 + r1) * (1 / 999)"] t0 t1
    by (simp add: mm m)
  with t0 t1 have c7: "\<exists>t0 t1. LSP_cdf_numeric ex_origin 1 ! 0 = Fin t0 \<and>
      LSP_cdf_numeric ex_origin 1 ! 1 = Fin t1 \<and>
      sub_log_cdf (LowpassSmoothedProb ex_origin 1) (Fin (1000 / 999)) =
        flog (Fin ((t1 - t0) / (1 / 999) * (1 / 1998) + t0))"
    by (intro exI [where x = "r0 * (1 / 999)"] exI [where x = "(r0 + r1) * (1 / 999)"]) simp
  have c8: "sub_log_cdf (LowpassSmoothedProb ex_origin 1) (Fin (3 / 2)) =
     flog (LSP_cdf_numeric ex_origin 1 ! 499)"
    using ht [rule_format, of 499] by (simp add: mm m)
  from zero first c1 c2 c3 c4 c5 c6 c7 c8 show ?thesis by blast
qed

text \<open>
  C7 (as amended). Inside the bounds the log pdf of a power law is
  \<open>alpha * log x - log norm_fact\<close>; for \<open>0 < minpl < maxpl\<close> the factor is
  \<open>(maxpl powr (alpha + 1) - minpl powr (alpha + 1)) / (alpha + 1)\<close>, and
  \<open>log (maxpl / minpl)\<close> when \<open>alpha = -1\<close>, so that the log pdf is a finite real
  number on \<open>[minpl, maxpl]\<close>. For
  \<^verbatim>\<open>PowerLaw(5, 100, -2)\<close> the factor is \<open>(1/100 - 1/5) / (-1) = 0.19\<close> and the
  pdf at 10 is \<open>0.01 / 0.19 = 1/19\<close>, about 0.0526.
\<close>

theorem C7_power_law:
  "(i < length x \<and> \<not> flt (x ! i) (Fin minpl) \<and> \<not> fgt (x ! i) (Fin maxpl) \<longrightarrow>
      log_pdf (PowerLaw minpl maxpl alpha) x ! i =
        fsub (fmul (Fin alpha) (flog (x ! i))) (flog (PL_normfact minpl maxpl alpha))) \<and>
   (0 < minpl \<and> minpl < maxpl \<longrightarrow>
      PL_normfact minpl maxpl alpha =
        Fin (if alpha = - 1 then ln (maxpl / minpl)
             else (maxpl powr (alpha + 1) - minpl powr (alpha + 1)) / (alpha + 1))) \<and>
   (0 < minpl \<and> minpl < maxpl \<and> minpl \<le> v \<and> v \<le> maxpl \<longrightarrow>
      log_pdf (PowerLaw minpl maxpl alpha) [Fin v] =
        [Fin (alpha * ln v -
              ln (if alpha = - 1 then ln (maxpl / minpl)
                  else (maxpl powr (alpha + 1) - minpl powr (alpha + 1)) / (alpha + 1)))]) \<and>
   PL_normfact 5 100 (- 2) = Fin (19 / 100) \<and>
   pdf (PowerLaw 5 100 (- 2)) [Fin 10] = [Fin (1 / 19)] \<and>
   526 / 10000 < (1 / 19 :: real) \<and> (1 / 19 :: real) < 527 / 10000"
proof (intro conjI impI)
  assume "i < length x \<and> \<not> flt (x ! i) (Fin minpl) \<and> \<not> fgt (x ! i) (Fin maxpl)"
  then show "log_pdf (PowerLaw minpl maxpl alpha) x ! i =
        fsub (fmul (Fin alpha) (flog (x ! i))) (flog (PL_normfact minpl maxpl alpha))"
    by (simp add: log_pdf_nth PowerLaw_fields)
next
  assume "0 < minpl \<and> minpl < maxpl"
  then show "PL_normfact minpl maxpl alpha =
        Fin (if alpha = - 1 then ln (maxpl / minpl)
             else (maxpl powr (alpha + 1) - minpl powr (alpha + 1)) / (alpha + 1))"
    using PL_normfact_Fin [of minpl maxpl alpha] by (simp add: PL_norm_real_def)
next
  assume a: "0 < minpl \<and> minpl < maxpl \<and> minpl \<le> v \<and> v \<le> maxpl"
  have "length (log_pdf (PowerLaw minpl maxpl alpha) [Fin v]) = 1"
    by (simp add: log_pdf_def check_bound_pdf_def check_bounds_1D_def mask_assign_def)
  then obtain y where y: "log_pdf (PowerLaw minpl maxpl alpha) [Fin v] = [y]"
    by (cases "log_pdf (PowerLaw minpl maxpl alpha) [Fin v]") simp_all
  have "log_pdf (PowerLaw minpl maxpl alpha) [Fin v] ! 0 =
      Fin (alpha * ln v - ln (PL_norm_real minpl maxpl alpha))"
    using a by (intro PowerLaw_log_pdf_Fin) simp_all
  with y show "log_pdf (PowerLaw minpl maxpl alpha) [Fin v] =
        [Fin (alpha * ln v -
              ln (if alpha = - 1 then ln (maxpl / minpl)
                  else (maxpl powr (alpha + 1) - minpl powr (alpha + 1)) / (alpha + 1)))]"
    by (simp add: PL_norm_real_def)
next
  show "PL_normfact 5 100 (- 2) = Fin (19 / 100)" by (rule PL_normfact_example)
  show "pdf (PowerLaw 5 100 (- 2)) [Fin 10] = [Fin (1 / 19)]" by (rule PowerLaw_pdf_example)
qed simp_all

theorem C7_power_law_witness:
  "PL_normfact 1 2 (- 1) = Fin (ln 2) \<and>
   log_pdf (PowerLaw 1 2 (- 1)) [Fin 1] = [Fin (- ln (ln 2))] \<and>
   log_pdf (PowerLaw 1 2 (- 1)) [Fin 1, Fin 3] ! 0 =
     fsub (fmul (Fin (- 1)) (flog (Fin 1))) (flog (PL_normfact 1 2 (- 1)))"
  using C7_power_law [of 0 "[Fin 1, Fin 3]" 1 2 "- 1" 1]
  by (simp add: fgt_def)

text \<open>The concrete case of the claim as stated fails: the factor is 0.19, not 0.0190,
  and the pdf at 10 is \<open>1/19\<close>, not 0.526, by more than the rounding of the printed
  digits.\<close>

theorem C7_concrete_numbers_counterexample:
  "PL_normfact 5 100 (- 2) = Fin (19 / 100) \<and>
   \<not> \<bar>19 / 100 - 190 / 10000\<bar> \<le> (5 / 100000 :: real) \<and>
   pdf (PowerLaw 5 100 (- 2)) [Fin 10] = [Fin (1 / 19)] \<and>
   \<not> \<bar>1 / 19 - 526 / 1000\<bar> \<le> (5 / 10000 :: real)"
  using PL_normfact_example PowerLaw_pdf_example by simp

text \<open>
  C8. The break point is \<open>minpl + b * (maxpl - minpl)\<close>; the first power law runs from
  \<open>minpl\<close> to it and the second from it to \<open>maxpl\<close>. For \<open>0 < minpl < maxpl\<close> and
  \<open>0 < b < 1\<close> it lies strictly between the bounds, both power laws have a positive
  finite pdf there, \<open>p1\<close> and \<open>p2\<close>, and the normalisation is \<open>1 + p1 / p2\<close>. The
  normalised first piece and the normalised rescaled second piece both give
  \<open>p1 / (1 + p1 / p2)\<close> at the break point, and the pdf of the broken power law is the
  first piece below the break point and the second piece above it: the pdf of the first
  power law divided by the normalisation, and the pdf of the second power law times
  \<open>p1 / p2\<close> divided by the normalisation. At the break point
  itself, which lies in the bounds of both power laws, \<^verbatim>\<open>logaddexp\<close> adds the two
  pieces: \<^verbatim>\<open>pdf\<close> returns twice the value on which the pieces agree, and so is not
  continuous there.
\<close>

theorem C8_broken_power_law:
  assumes "0 < minpl" and "minpl < maxpl" and "0 < b" and "b < 1"
  shows "BPL_break_point minpl maxpl b = minpl + b * (maxpl - minpl) \<and>
    minpl < BPL_break_point minpl maxpl b \<and> BPL_break_point minpl maxpl b < maxpl \<and>
    minval (BPL_PL1 minpl maxpl alpha_1 b) = minpl \<and>
    maxval (BPL_PL1 minpl maxpl alpha_1 b) = minpl + b * (maxpl - minpl) \<and>
    minval (BPL_PL2 minpl maxpl alpha_2 b) = minpl + b * (maxpl - minpl) \<and>
    maxval (BPL_PL2 minpl maxpl alpha_2 b) = maxpl \<and>
    (\<exists>p1 p2. 0 < p1 \<and> 0 < p2 \<and>
      pdf (BPL_PL1 minpl maxpl alpha_1 b) [Fin (minpl + b * (maxpl - minpl))] ! 0 = Fin p1 \<and>
      pdf (BPL_PL2 minpl maxpl alpha_2 b) [Fin (minpl + b * (maxpl - minpl))] ! 0 = Fin p2 \<and>
      BPL_norm_fact minpl maxpl alpha_1 alpha_2 b = Fin (1 + p1 / p2) \<and>
      fexp (fsub (BPL_first minpl maxpl alpha_1 alpha_2 b (Fin (minpl + b * (maxpl - minpl))))
                 (flog (BPL_norm_fact minpl maxpl alpha_1 alpha_2 b))) =
        Fin (p1 / (1 + p1 / p2)) \<and>
      fexp (fsub (BPL_second minpl maxpl alpha_1 alpha_2 b (Fin (minpl + b * (maxpl - minpl))))
                 (flog (BPL_norm_fact minpl maxpl alpha_1 alpha_2 b))) =
        Fin (p1 / (1 + p1 / p2)) \<and>
      (\<forall>x. minpl \<le> x \<and> x < minpl + b * (maxpl - minpl) \<longrightarrow>
         pdf (BrokenPowerLaw minpl maxpl alpha_1 alpha_2 b) [Fin x] ! 0 =
           fexp (fsub (BPL_first minpl maxpl alpha_1 alpha_2 b (Fin x))
                      (flog (BPL_norm_fact minpl maxpl alpha_1 alpha_2 b)))) \<and>
      (\<forall>x. minpl + b * (maxpl - minpl) < x \<and> x \<le> maxpl \<longrightarrow>
         pdf (BrokenPowerLaw minpl maxpl alpha_1 alpha_2 b) [Fin x] ! 0 =
           fexp (fsub (BPL_second minpl maxpl alpha_1 alpha_2 b (Fin x))
                      (flog (BPL_norm_fact minpl maxpl alpha_1 alpha_2 b)))) \<and>
      (\<forall>x. minpl \<le> x \<and> x < minpl + b * (maxpl - minpl) \<longrightarrow>
         (\<exists>q. 0 < q \<and> pdf (BPL_PL1 minpl maxpl alpha_1 b) [Fin x] ! 0 = Fin q \<and>
              pdf (BrokenPowerLaw minpl maxpl alpha_1 alpha_2 b) [Fin x] ! 0 =
                Fin (q / (1 + p1 / p2)))) \<and>
      (\<forall>x. minpl + b * (maxpl - minpl) < x \<and> x \<le> maxpl \<longrightarrow>
         (\<exists>q. 0 < q \<and> pdf (BPL_PL2 minpl maxpl alpha_2 b) [Fin x] ! 0 = Fin q \<and>
              pdf (BrokenPowerLaw minpl maxpl alpha_1 alpha_2 b) [Fin x] ! 0 =
                Fin (q * (p1 / p2) / (1 + p1 / p2)))) \<and>
      pdf (BrokenPowerLaw minpl maxpl alpha_1 alpha_2 b) [Fin (minpl + b * (maxpl - minpl))] ! 0 =
        Fin (2 * (p1 / (1 + p1 / p2))) \<and>
      pdf (BrokenPowerLaw minpl maxpl alpha_1 alpha_2 b) [Fin (minpl + b * (maxpl - minpl))] ! 0 \<noteq>
        Fin (p1 / (1 + p1 / p2)))"
proof -
  define bp where "bp = minpl + b * (maxpl - minpl)"
  have bpd: "BPL_break_point minpl maxpl b = bp" by (simp add: bp_def BPL_break_point_def)
  have lo: "minpl < bp" and hi: "bp < maxpl"
    using break_point_between [OF assms(2-4)] by (simp_all add: bpd)
  have bp0: "0 < bp" using assms(1) lo by simp
  have bounds: "minval (BPL_PL1 minpl maxpl alpha_1 b) = minpl"
      "maxval (BPL_PL1 minpl maxpl alpha_1 b) = bp"
      "minval (BPL_PL2 minpl maxpl alpha_2 b) = bp"
      "maxval (BPL_PL2 minpl maxpl alpha_2 b) = maxpl"
    by (simp_all add: BPL_PL1_def BPL_PL2_def PowerLaw_fields bpd)
  define l1 where "l1 = alpha_1 * ln bp - ln (PL_norm_real minpl bp alpha_1)"
  define l2 where "l2 = alpha_2 * ln bp - ln (PL_norm_real bp maxpl alpha_2)"
  have L1: "log_pdf (BPL_PL1 minpl maxpl alpha_1 b) [Fin bp] ! 0 = Fin l1"
    unfolding BPL_PL1_def bpd l1_def
    using assms(1) lo by (intro PowerLaw_log_pdf_Fin) simp_all
  have L2: "log_pdf (BPL_PL2 minpl maxpl alpha_2 b) [Fin bp] ! 0 = Fin l2"
    unfolding BPL_PL2_def bpd l2_def
    using bp0 hi by (intro PowerLaw_log_pdf_Fin) simp_all
  have P1: "pdf (BPL_PL1 minpl maxpl alpha_1 b) [Fin bp] ! 0 = Fin (exp l1)"
    by (simp add: pdf_single L1)
  have P2: "pdf (BPL_PL2 minpl maxpl alpha_2 b) [Fin bp] ! 0 = Fin (exp l2)"
    by (simp add: pdf_single L2)
  define N where "N = 1 + exp l1 / exp l2"
  have Npos: "0 < N" unfolding N_def by (simp add: add_pos_pos)
  have NF: "BPL_norm_fact minpl maxpl alpha_1 alpha_2 b = Fin N"
    by (simp add: BPL_norm_fact_def Let_def bpd P1 P2 N_def)
  have F: "BPL_first minpl maxpl alpha_1 alpha_2 b (Fin bp) = Fin l1"
    by (simp add: BPL_first_def L1)
  have S: "BPL_second minpl maxpl alpha_1 alpha_2 b (Fin bp) = Fin l1"
    by (simp add: BPL_second_def Let_def bpd L1 L2 fsub_def)
  have V: "fexp (fsub (Fin l1) (flog (Fin N))) = Fin (exp l1 / N)"
    using Npos by (simp add: fsub_def exp_diff)
  have left: "pdf (BrokenPowerLaw minpl maxpl alpha_1 alpha_2 b) [Fin x] ! 0 =
           fexp (fsub (BPL_first minpl maxpl alpha_1 alpha_2 b (Fin x)) (flog (Fin N)))"
    if "minpl \<le> x \<and> x < bp" for x
  proof -
    from that have x: "minpl \<le> x" "x < bp" by simp_all
    have f: "BPL_first minpl maxpl alpha_1 alpha_2 b (Fin x) =
        Fin (alpha_1 * ln x - ln (PL_norm_real minpl bp alpha_1))"
      unfolding BPL_first_def BPL_PL1_def bpd
      using assms(1) lo x by (intro PowerLaw_log_pdf_Fin) simp_all
    have "log_pdf (BPL_PL2 minpl maxpl alpha_2 b) [Fin x] ! 0 = NInf"
      unfolding BPL_PL2_def bpd by (rule PowerLaw_log_pdf_below [OF x(2)])
    then have s: "BPL_second minpl maxpl alpha_1 alpha_2 b (Fin x) = NInf"
      by (simp add: BPL_second_def Let_def bpd L1 L2 fsub_def)
    have inb: "\<not> flt (Fin x) (Fin minpl)" "\<not> fgt (Fin x) (Fin maxpl)"
      using x hi by (simp_all add: fgt_def)
    show ?thesis
      using inb by (simp add: pdf_single log_pdf_single BrokenPowerLaw_fields NF f s logaddexp_def)
  qed
  have right: "pdf (BrokenPowerLaw minpl maxpl alpha_1 alpha_2 b) [Fin x] ! 0 =
           fexp (fsub (BPL_second minpl maxpl alpha_1 alpha_2 b (Fin x)) (flog (Fin N)))"
    if "bp < x \<and> x \<le> maxpl" for x
  proof -
    from that have x: "bp < x" "x \<le> maxpl" by simp_all
    have f: "BPL_first minpl maxpl alpha_1 alpha_2 b (Fin x) = NInf"
      unfolding BPL_first_def BPL_PL1_def bpd
      by (rule PowerLaw_log_pdf_above [OF x(1)])
    have "log_pdf (BPL_PL2 minpl maxpl alpha_2 b) [Fin x] ! 0 =
        Fin (alpha_2 * ln x - ln (PL_norm_real bp maxpl alpha_2))"
      unfolding BPL_PL2_def bpd
      using bp0 hi x by (intro PowerLaw_log_pdf_Fin) simp_all
    then have s: "BPL_second minpl maxpl alpha_1 alpha_2 b (Fin x) =
        Fin (alpha_2 * ln x - ln (PL_norm_real bp maxpl alpha_2) + l1 - l2)"
      by (simp add: BPL_second_def Let_def bpd L1 L2 fsub_def)
    have inb: "\<not> flt (Fin x) (Fin minpl)" "\<not> fgt (Fin x) (Fin maxpl)"
      using x lo by (simp_all add: fgt_def)
    show ?thesis
      using inb by (simp add: pdf_single log_pdf_single BrokenPowerLaw_fields NF f s logaddexp_def)
  qed
  have leftv: "\<exists>q. 0 < q \<and> pdf (BPL_PL1 minpl maxpl alpha_1 b) [Fin x] ! 0 = Fin q \<and>
        pdf (BrokenPowerLaw minpl maxpl alpha_1 alpha_2 b) [Fin x] ! 0 = Fin (q / N)"
    if "minpl \<le> x \<and> x < bp" for x
  proof -
    from that have x: "minpl \<le> x" "x < bp" by simp_all
    define L where "L = alpha_1 * ln x - ln (PL_norm_real minpl bp alpha_1)"
    have l: "log_pdf (BPL_PL1 minpl maxpl alpha_1 b) [Fin x] ! 0 = Fin L"
      unfolding BPL_PL1_def bpd L_def
      using assms(1) lo x by (intro PowerLaw_log_pdf_Fin) simp_all
    then have "pdf (BPL_PL1 minpl maxpl alpha_1 b) [Fin x] ! 0 = Fin (exp L)"
      by (simp add: pdf_single)
    moreover have "pdf (BrokenPowerLaw minpl maxpl alpha_1 alpha_2 b) [Fin x] ! 0 =
        Fin (exp L / N)"
      using left [OF that] l Npos by (simp add: BPL_first_def fsub_def exp_diff)
    ultimately show ?thesis by (intro exI [where x = "exp L"]) simp
  qed
  have rightv: "\<exists>q. 0 < q \<and> pdf (BPL_PL2 minpl maxpl alpha_2 b) [Fin x] ! 0 = Fin q \<and>
        pdf (BrokenPowerLaw minpl maxpl alpha_1 alpha_2 b) [Fin x] ! 0 =
          Fin (q * (exp l1 / exp l2) / N)"
    if "bp < x \<and> x \<le> maxpl" for x
  proof -
    from that have x: "bp < x" "x \<le> maxpl" by simp_all
    define L where "L = alpha_2 * ln x - ln (PL_norm_real bp maxpl alpha_2)"
    have l: "log_pdf (BPL_PL2 minpl maxpl alpha_2 b) [Fin x] ! 0 = Fin L"
      unfolding BPL_PL2_def bpd L_def
      using bp0 hi x by (intro PowerLaw_log_pdf_Fin) simp_all
    then have "pdf (BPL_PL2 minpl maxpl alpha_2 b) [Fin x] ! 0 = Fin (exp L)"
      by (simp add: pdf_single)
    moreover have "BPL_second minpl maxpl alpha_1 alpha_2 b (Fin x) = Fin (L + l1 - l2)"
      using l by (simp add: BPL_second_def Let_def bpd L1 L2 fsub_def)
    then have "pdf (BrokenPowerLaw minpl maxpl alpha_1 alpha_2 b) [Fin x] ! 0 =
        Fin (exp L * (exp l1 / exp l2) / N)"
      using right [OF that] Npos by (simp add: fsub_def exp_diff exp_add)
    ultimately show ?thesis by (intro exI [where x = "exp L"]) simp
  qed
  have inb: "\<not> flt (Fin bp) (Fin minpl)" "\<not> fgt (Fin bp) (Fin maxpl)"
    using lo hi by (simp_all add: fgt_def)
  have "ln (exp l1 + exp l1) = ln 2 + l1"
  proof -
    have "exp l1 + exp l1 = 2 * exp l1" by simp
    then show ?thesis by (simp add: ln_mult)
  qed
  then have at: "pdf (BrokenPowerLaw minpl maxpl alpha_1 alpha_2 b) [Fin bp] ! 0 =
      Fin (2 * (exp l1 / N))"
    using inb Npos
    by (simp add: pdf_single log_pdf_single BrokenPowerLaw_fields NF F S logaddexp_def
        fsub_def exp_diff exp_add add_pos_pos)
  have "0 < exp l1 / N" using Npos by simp
  then have ne: "Fin (2 * (exp l1 / N)) \<noteq> Fin (exp l1 / N)" using Npos by simp
  have ex: "\<exists>p1 p2. 0 < p1 \<and> 0 < p2 \<and>
      pdf (BPL_PL1 minpl maxpl alpha_1 b) [Fin bp] ! 0 = Fin p1 \<and>
      pdf (BPL_PL2 minpl maxpl alpha_2 b) [Fin bp] ! 0 = Fin p2 \<and>
      BPL_norm_fact minpl maxpl alpha_1 alpha_2 b = Fin (1 + p1 / p2) \<and>
      fexp (fsub (BPL_first minpl maxpl alpha_1 alpha_2 b (Fin bp))
                 (flog (BPL_norm_fact minpl maxpl alpha_1 alpha_2 b))) =
        Fin (p1 / (1 + p1 / p2)) \<and>
      fexp (fsub (BPL_second minpl maxpl alpha_1 alpha_2 b (Fin bp))
                 (flog (BPL_norm_fact minpl maxpl alpha_1 alpha_2 b))) =
        Fin (p1 / (1 + p1 / p2)) \<and>
      (\<forall>x. minpl \<le> x \<and> x < bp \<longrightarrow>
         pdf (BrokenPowerLaw minpl maxpl alpha_1 alpha_2 b) [Fin x] ! 0 =
           fexp (fsub (BPL_first minpl maxpl alpha_1 alpha_2 b (Fin x))
                      (flog (BPL_norm_fact minpl maxpl alpha_1 alpha_2 b)))) \<and>
      (\<forall>x. bp < x \<and> x \<le> maxpl \<longrightarrow>
         pdf (BrokenPowerLaw minpl maxpl alpha_1 alpha_2 b) [Fin x] ! 0 =
           fexp (fsub (BPL_second minpl maxpl alpha_1 alpha_2 b (Fin x))
                      (flog (BPL_norm_fact minpl maxpl alpha_1 alpha_2 b)))) \<and>
      (\<forall>x. minpl \<le> x \<and> x < bp \<longrightarrow>
         (\<exists>q. 0 < q \<and> pdf (BPL_PL1 minpl maxpl alpha_1 b) [Fin x] ! 0 = Fin q \<and>
              pdf (BrokenPowerLaw minpl maxpl alpha_1 alpha_2 b) [Fin x] ! 0 =
                Fin (q / (1 + p1 / p2)))) \<and>
      (\<forall>x. bp < x \<and> x \<le> maxpl \<longrightarrow>
         (\<exists>q. 0 < q \<and> pdf (BPL_PL2 minpl maxpl alpha_2 b) [Fin x] ! 0 = Fin q \<and>
              pdf (BrokenPowerLaw minpl maxpl alpha_1 alpha_2 b) [Fin x] ! 0 =
                Fin (q * (p1 / p2) / (1 + p1 / p2)))) \<and>
      pdf (BrokenPowerLaw minpl maxpl alpha_1 alpha_2 b) [Fin bp] ! 0 =
        Fin (2 * (p1 / (1 + p1 / p2))) \<and>
      pdf (BrokenPowerLaw minpl maxpl alpha_1 alpha_2 b) [Fin bp] ! 0 \<noteq>
        Fin (p1 / (1 + p1 / p2))"
    apply (rule exI [where x = "exp l1"])
    apply (rule exI [where x = "exp l2"])
    using P1 P2 NF F S V left right leftv rightv at ne
    by (simp add: N_def)
  show ?thesis
    unfolding bp_def [symmetric] using bpd lo hi bounds ex by simp
qed

theorem C8_broken_power_law_witness:
  "BPL_break_point 1 3 (1 / 2) = 2 \<and>
   BPL_norm_fact 1 3 0 0 (1 / 2) = Fin 2 \<and>
   fexp (fsub (BPL_first 1 3 0 0 (1 / 2) (Fin 2)) (flog (BPL_norm_fact 1 3 0 0 (1 / 2)))) =
     Fin (1 / 2) \<and>
   fexp (fsub (BPL_second 1 3 0 0 (1 / 2) (Fin 2)) (flog (BPL_norm_fact 1 3 0 0 (1 / 2)))) =
     Fin (1 / 2) \<and>
   pdf (BrokenPowerLaw 1 3 0 0 (1 / 2)) [Fin (3 / 2)] ! 0 = Fin (1 / 2) \<and>
   pdf (BrokenPowerLaw 1 3 0 0 (1 / 2)) [Fin 2] ! 0 = Fin 1 \<and>
   pdf (BrokenPowerLaw 1 3 0 0 (1 / 2)) [Fin (5 / 2)] ! 0 = Fin (1 / 2)"
proof -
  have bp: "BPL_break_point 1 3 (1 / 2) = 2" by (simp add: BPL_break_point_def)
  have n1: "PL_normfact 1 2 0 = Fin 1" and n2: "PL_normfact 2 3 0 = Fin 1"
    by (simp_all add: PL_normfact_def fsub_def)
  have l1: "log_pdf (BPL_PL1 1 3 0 (1 / 2)) [Fin x] ! 0 = Fin 0" if "1 \<le> x" "x \<le> 2" for x
    using that by (simp add: log_pdf_single BPL_PL1_def bp PowerLaw_fields n1 fgt_def fsub_def)
  have l2: "log_pdf (BPL_PL2 1 3 0 (1 / 2)) [Fin x] ! 0 = Fin 0" if "2 \<le> x" "x \<le> 3" for x
    using that by (simp add: log_pdf_single BPL_PL2_def bp PowerLaw_fields n2 fgt_def fsub_def)
  have p1: "pdf (BPL_PL1 1 3 0 (1 / 2)) [Fin 2] ! 0 = Fin 1" by (simp add: pdf_single l1)
  have p2: "pdf (BPL_PL2 1 3 0 (1 / 2)) [Fin 2] ! 0 = Fin 1" by (simp add: pdf_single l2)
  have f: "BPL_first 1 3 0 0 (1 / 2) (Fin (3 / 2)) = Fin 0" by (simp add: BPL_first_def l1)
  have s: "BPL_second 1 3 0 0 (1 / 2) (Fin (5 / 2)) = Fin 0"
    by (simp add: BPL_second_def Let_def bp l1 l2 fsub_def)
  have "(1::real) + (1 / 2) * (3 - 1) = 2" by simp
  with C8_broken_power_law [of 1 3 "1 / 2" 0 0] obtain q1 q2 where
    q: "pdf (BPL_PL1 1 3 0 (1 / 2)) [Fin 2] ! 0 = Fin q1"
       "pdf (BPL_PL2 1 3 0 (1 / 2)) [Fin 2] ! 0 = Fin q2"
       "BPL_norm_fact 1 3 0 0 (1 / 2) = Fin (1 + q1 / q2)"
       "fexp (fsub (BPL_first 1 3 0 0 (1 / 2) (Fin 2))
              (flog (BPL_norm_fact 1 3 0 0 (1 / 2)))) = Fin (q1 / (1 + q1 / q2))"
       "fexp (fsub (BPL_second 1 3 0 0 (1 / 2) (Fin 2))
              (flog (BPL_norm_fact 1 3 0 0 (1 / 2)))) = Fin (q1 / (1 + q1 / q2))"
       "pdf (BrokenPowerLaw 1 3 0 0 (1 / 2)) [Fin (3 / 2)] ! 0 =
          fexp (fsub (BPL_first 1 3 0 0 (1 / 2) (Fin (3 / 2)))
                     (flog (BPL_norm_fact 1 3 0 0 (1 / 2))))"
       "pdf (BrokenPowerLaw 1 3 0 0 (1 / 2)) [Fin (5 / 2)] ! 0 =
          fexp (fsub (BPL_second 1 3 0 0 (1 / 2) (Fin (5 / 2)))
                     (flog (BPL_norm_fact 1 3 0 0 (1 / 2))))"
       "pdf (BrokenPowerLaw 1 3 0 0 (1 / 2)) [Fin 2] ! 0 = Fin (2 * (q1 / (1 + q1 / q2)))"
    by auto
  from q(1,2) p1 p2 have "q1 = 1" "q2 = 1" by simp_all
  with q(3-8) bp f s show ?thesis by (simp add: fsub_def exp_minus inverse_eq_divide)
qed

text \<open>
  C9. For a distribution with \<open>minval \<le> maxval\<close> and every entry of the input:
  outside the bounds the log pdf is \<^verbatim>\<open>-inf\<close> and the pdf is 0; below
  \<open>minval\<close> the log cdf is \<^verbatim>\<open>-inf\<close> and the cdf is 0; above \<open>maxval\<close> the log
  cdf is 0 and the cdf is 1. The results have the length of the input.
\<close>

theorem C9_bound_masking:
  assumes "minval d \<le> maxval d" and "i < length x"
  shows "length (log_pdf d x) = length x \<and> length (log_cdf d x) = length x \<and>
         (flt (x ! i) (Fin (minval d)) \<or> fgt (x ! i) (Fin (maxval d)) \<longrightarrow>
            log_pdf d x ! i = NInf \<and> pdf d x ! i = Fin 0) \<and>
         (flt (x ! i) (Fin (minval d)) \<longrightarrow> log_cdf d x ! i = NInf \<and> cdf d x ! i = Fin 0) \<and>
         (fgt (x ! i) (Fin (maxval d)) \<longrightarrow> log_cdf d x ! i = Fin 0 \<and> cdf d x ! i = Fin 1)"
proof -
  have excl: "\<not> fgt (x ! i) (Fin (maxval d))" if "flt (x ! i) (Fin (minval d))"
    using that assms(1) by (cases "x ! i") (auto simp add: fgt_def)
  show ?thesis
    using assms(2) excl
    by (auto simp add: log_pdf_def pdf_def log_cdf_def cdf_def check_bound_pdf_def
        check_bound_cdf_def check_bounds_1D_def mask_assign_def Let_def)
qed

theorem C9_bound_masking_witness:
  "log_pdf (PowerLaw 5 100 (- 2)) [Fin 1, Fin 10, Fin 200] ! 0 = NInf \<and>
   pdf (PowerLaw 5 100 (- 2)) [Fin 1, Fin 10, Fin 200] ! 2 = Fin 0 \<and>
   cdf (PowerLaw 5 100 (- 2)) [Fin 1, Fin 10, Fin 200] ! 0 = Fin 0 \<and>
   cdf (PowerLaw 5 100 (- 2)) [Fin 1, Fin 10, Fin 200] ! 2 = Fin 1"
  using C9_bound_masking [of "PowerLaw 5 100 (- 2)" 0 "[Fin 1, Fin 10, Fin 200]"]
    C9_bound_masking [of "PowerLaw 5 100 (- 2)" 2 "[Fin 1, Fin 10, Fin 200]"]
  by (simp add: PowerLaw_fields fgt_def)

text \<open>
  C10 (as amended). In exact arithmetic, that is with no rounding, the two conversions
  are inverse to each other: for a mean \<open>0 < mu < 1\<close> and a variance \<open>var > 0\<close> whose
  shape parameters \<open>a\<close> and \<open>b\<close> are not zero, converting the shape parameters back gives
  the mean and the variance again.
\<close>

theorem C10_beta_roundtrip:
  assumes "0 < mu" and "mu < 1" and "0 < var"
    and "betadistro_muvar2ab (\<lambda>x. x) (Fin mu) (Fin var) = (a, b)"
    and "a \<noteq> Fin 0" and "b \<noteq> Fin 0"
  shows "betadistro_ab2muvar (\<lambda>x. x) a b = (Fin mu, Fin var)"
proof -
  note ops = radd_def rsub_def rmul_def rdiv_def rpow_def frnd_exact
  define A where "A = ((1 - mu) / var - 1 / mu) * mu ^ 2"
  have a: "a = Fin A" and b: "b = Fin (A * (1 / mu - 1))"
    using assms(1,3,4)
    by (simp_all add: betadistro_muvar2ab_def ops Let_def fsub_def fpow_two A_def
        del: fpow.simps)
  have A0: "A \<noteq> 0" using assms(5) a by simp
  have s: "A + A * (1 / mu - 1) = A / mu" by (simp add: algebra_simps)
  have s0: "A / mu \<noteq> 0" using A0 assms(1) by simp
  have s1: "A / mu + 1 = mu * (1 - mu) / var"
    using assms(1,3) by (simp add: A_def field_simps power2_eq_square)
  have s1pos: "0 < A / mu + 1" unfolding s1 using assms(1,2,3) by simp
  have den: "(A / mu) ^ 2 * (A / mu + 1) \<noteq> 0" using s0 s1pos by simp
  have m: "A / (A / mu) = mu" using A0 assms(1) by simp
  have v: "A * (A * (1 / mu - 1)) / ((A / mu) ^ 2 * (A / mu + 1)) = var"
    unfolding s1 using A0 assms(1,2,3) by (simp add: field_simps power2_eq_square)
  show ?thesis
    unfolding a b betadistro_ab2muvar_def ops
    using s0 den m v by (simp add: s fpow_two del: fpow.simps)
qed

theorem C10_beta_roundtrip_witness:
  "betadistro_muvar2ab (\<lambda>x. x) (Fin (1 / 2)) (Fin (1 / 20)) = (Fin 2, Fin 2) \<and>
   betadistro_ab2muvar (\<lambda>x. x) (Fin 2) (Fin 2) = (Fin (1 / 2), Fin (1 / 20))"
proof -
  have ab: "betadistro_muvar2ab (\<lambda>x. x) (Fin (1 / 2)) (Fin (1 / 20)) = (Fin 2, Fin 2)"
    by (simp add: betadistro_muvar2ab_def radd_def rsub_def rmul_def rdiv_def rpow_def
        Let_def fsub_def power2_eq_square)
  from C10_beta_roundtrip [OF _ _ _ ab] ab show ?thesis by simp
qed

text \<open>The claim as stated, an exact round trip of the code, fails in double precision.
  The doubles nearest to 0.1 and 0.07 are \<open>7205759403792794 / 2 ^ 56\<close> and
  \<open>5044031582654956 / 2 ^ 56\<close>. Their shape parameters are the doubles
  \<^verbatim>\<open>0.028571428571428564\<close> and \<^verbatim>\<open>0.25714285714285706\<close>, not zero, and the
  conversion back returns \<^verbatim>\<open>0.09999999999999999\<close> and
  \<^verbatim>\<open>0.06999999999999999\<close>, each one unit in the last place below the input.\<close>

theorem C10_exact_round_trip_counterexample:
  "(0::real) < 7205759403792794 / 2 ^ 56 \<and> (7205759403792794 / 2 ^ 56 :: real) < 1 \<and>
   (0::real) < 5044031582654956 / 2 ^ 56 \<and>
   betadistro_muvar2ab round53 (Fin (7205759403792794 / 2 ^ 56))
       (Fin (5044031582654956 / 2 ^ 56)) =
     (Fin (8235153604334619 / 2 ^ 58), Fin (4632273902438223 / 2 ^ 54)) \<and>
   Fin (8235153604334619 / 2 ^ 58) \<noteq> Fin 0 \<and> Fin (4632273902438223 / 2 ^ 54) \<noteq> Fin 0 \<and>
   betadistro_ab2muvar round53 (Fin (8235153604334619 / 2 ^ 58))
       (Fin (4632273902438223 / 2 ^ 54)) =
     (Fin (7205759403792793 / 2 ^ 56), Fin (5044031582654955 / 2 ^ 56)) \<and>
   betadistro_ab2muvar round53 (Fin (8235153604334619 / 2 ^ 58))
       (Fin (4632273902438223 / 2 ^ 54)) \<noteq>
     (Fin (7205759403792794 / 2 ^ 56), Fin (5044031582654956 / 2 ^ 56))"
proof -
  define mu :: real where "mu = 7205759403792794 / 2 ^ 56"
  define var :: real where "var = 5044031582654956 / 2 ^ 56"
  define t1 :: real where "t1 = 8106479329266893 / 2 ^ 53"
  define t2 :: real where "t2 = 7237927972559725 / 2 ^ 49"
  define t3 :: real where "t3 = 5629499534213120 / 2 ^ 49"
  define t4 :: real where "t4 = 6433713753386420 / 2 ^ 51"
  define t5 :: real where "t5 = 5764607523034236 / 2 ^ 59"
  define a :: real where "a = 8235153604334619 / 2 ^ 58"
  define t7 :: real where "t7 = 5066549580791808 / 2 ^ 49"
  define b :: real where "b = 4632273902438223 / 2 ^ 54"
  define s :: real where "s = 5146971002709137 / 2 ^ 54"
  define mu2 :: real where "mu2 = 7205759403792793 / 2 ^ 56"
  define ab :: real where "ab = 8470443707315605 / 2 ^ 60"
  define s2 :: real where "s2 = 5882252574524727 / 2 ^ 56"
  define s1 :: real where "s1 = 5790342378047780 / 2 ^ 52"
  define d :: real where "d = 7562896167246077 / 2 ^ 56"
  define var2 :: real where "var2 = 5044031582654955 / 2 ^ 56"
  note defs = mu_def var_def t1_def t2_def t3_def t4_def t5_def a_def t7_def b_def s_def
    mu2_def ab_def s2_def s1_def d_def var2_def
  have r_t1: "round53 (1 - mu) = t1"
    using round53_eqI [where e = "- 53" and n = 8106479329266893 and x = "1 - mu"]
    by (simp add: power2_eq_square defs)
  have r_t2: "round53 (t1 / var) = t2"
    using round53_eqI [where e = "- 49" and n = 7237927972559725 and x = "t1 / var"]
    by (simp add: power2_eq_square defs)
  have r_t3: "round53 (1 / mu) = t3"
    using round53_eqI [where e = "- 49" and n = 5629499534213120 and x = "1 / mu"]
    by (simp add: power2_eq_square defs)
  have r_t4: "round53 (t2 - t3) = t4"
    using round53_eqI [where e = "- 51" and n = 6433713753386420 and x = "t2 - t3"]
    by (simp add: power2_eq_square defs)
  have r_t5: "round53 (mu ^ 2) = t5"
    using round53_eqI [where e = "- 59" and n = 5764607523034236 and x = "mu ^ 2"]
    by (simp add: power2_eq_square defs)
  have r_a: "round53 (t4 * t5) = a"
    using round53_eqI [where e = "- 58" and n = 8235153604334619 and x = "t4 * t5"]
    by (simp add: power2_eq_square defs)
  have r_t7: "round53 (t3 - 1) = t7"
    using round53_eqI [where e = "- 49" and n = 5066549580791808 and x = "t3 - 1"]
    by (simp add: power2_eq_square defs)
  have r_b: "round53 (a * t7) = b"
    using round53_eqI [where e = "- 54" and n = 4632273902438223 and x = "a * t7"]
    by (simp add: power2_eq_square defs)
  have r_s: "round53 (a + b) = s"
    using round53_eqI [where e = "- 54" and n = 5146971002709137 and x = "a + b"]
    by (simp add: power2_eq_square defs)
  have r_mu2: "round53 (a / s) = mu2"
    using round53_eqI [where e = "- 56" and n = 7205759403792793 and x = "a / s"]
    by (simp add: power2_eq_square defs)
  have r_ab: "round53 (a * b) = ab"
    using round53_eqI [where e = "- 60" and n = 8470443707315605 and x = "a * b"]
    by (simp add: power2_eq_square defs)
  have r_s2: "round53 (s ^ 2) = s2"
    using round53_eqI [where e = "- 56" and n = 5882252574524727 and x = "s ^ 2"]
    by (simp add: power2_eq_square defs)
  have r_s1: "round53 (s + 1) = s1"
    using round53_eqI [where e = "- 52" and n = 5790342378047780 and x = "s + 1"]
    by (simp add: power2_eq_square defs)
  have r_d: "round53 (s2 * s1) = d"
    using round53_eqI [where e = "- 56" and n = 7562896167246077 and x = "s2 * s1"]
    by (simp add: power2_eq_square defs)
  have r_var2: "round53 (ab / d) = var2"
    using round53_eqI [where e = "- 56" and n = 5044031582654955 and x = "ab / d"]
    by (simp add: power2_eq_square defs)
  have pos: "0 < mu" "0 < var" "0 < s" "0 < d"
    by (simp_all add: mu_def var_def s_def d_def)
  note ops = radd_def rsub_def rmul_def rdiv_def rpow_def
  have one: "betadistro_muvar2ab round53 (Fin mu) (Fin var) = (Fin a, Fin b)"
    using pos
    by (simp add: betadistro_muvar2ab_def ops Let_def fsub_def fpow_two
        r_t1 r_t2 r_t3 r_t4 r_t5 r_a r_t7 r_b del: fpow.simps)
  have two: "betadistro_ab2muvar round53 (Fin a) (Fin b) = (Fin mu2, Fin var2)"
    using pos
    by (simp add: betadistro_ab2muvar_def ops fpow_two
        r_s r_mu2 r_ab r_s2 r_s1 r_d r_var2 del: fpow.simps)
  have ne: "mu2 \<noteq> mu" by (simp add: mu2_def mu_def)
  show ?thesis
    using one two ne unfolding mu_def var_def a_def b_def mu2_def var2_def by simp
qed

end
